theory Spec2Isabelle
  imports Main "HOL-Library.Finite_Map" "HOL-Library.AList"
begin

section \<open>Step profiles (garlicsim/misc/step\_profile.py)\<close>

text \<open>
  Python objects that can be passed as step arguments. A step profile can itself be passed
  as an argument (\<open>StepProfile.__init__\<close> looks for one), so the two types are mutually
  recursive. \<open>StatePlaceholder\<close> is the class object of that name; keyword arguments
  are a Python dict with string keys, here a finite map.

  \<open>StepProfile\<close> subclasses \<open>ArgumentsProfile\<close>, whose fields are \<open>function\<close>,
  \<open>args\<close> and \<open>kwargs\<close>; \<open>self.step_function = self.function\<close> makes
  \<open>step_function\<close> a second name of the first field.
\<close>

datatype pyobj =
    IntObj int
  | StrObj string
  | StatePlaceholder
  | ProfileObj step_profile
and step_profile =
    StepProfile (step_function: string) (args: "pyobj list") (kwargs: "(string, pyobj) fmap")

datatype state = State (clock: int) (payload: nat)

text \<open>
  What a cruncher can put on its work queue: a \<open>State\<close>, an \<open>EndMarker\<close>, a
  \<open>StepProfile\<close>, or any other object (here named by a string).
\<close>

datatype thing =
    StateThing state
  | EndMarker
  | StepProfileThing step_profile
  | OtherThing string

text \<open>
  The exceptions of the code. \<open>Exception thing\<close> is
  \<open>Exception('Unexpected object %s in work queue' % thing)\<close>; \<open>GarlicSimException name\<close>
  is the one raised by \<open>CrunchingManager.__init__\<close> for the simpack of that name.
\<close>

datatype error =
    GarlicSimException string
  | Exception thing
  | IndexError
  | KeyError
  | ValueError
  | AssertionError

text \<open>
  Modelled from the spec: \<open>ArgumentsProfile.__init__\<close> and \<open>ArgumentsProfile.__eq__\<close>
  (garlicsim/general\_misc/arguments\_profile.py is not among the sources). The spec's step
  profile is the value \<open>{ step_function, args, kwargs }\<close>, and "two step profiles are
  equal iff function and arguments are equal".
\<close>

definition ArgumentsProfile_init ::
  "string \<Rightarrow> pyobj list \<Rightarrow> (string, pyobj) fmap \<Rightarrow> step_profile" where
  "ArgumentsProfile_init function as kws = StepProfile function as kws"

definition ArgumentsProfile_eq :: "step_profile \<Rightarrow> step_profile \<Rightarrow> bool" where
  "ArgumentsProfile_eq self other \<longleftrightarrow>
     step_function self = step_function other \<and> args self = args other
     \<and> kwargs self = kwargs other"

text \<open>
  \<open>StepProfile.__init__\<close>, lines 55-78. \<open>candidate\<close> is the object that may be a
  step profile to copy from: the only positional argument when there is no keyword
  argument, or the keyword argument \<open>step_profile\<close> when it is the only argument at all.
  \<open>None\<close> is Python's \<open>None\<close>.
\<close>

definition candidate :: "pyobj list \<Rightarrow> (string, pyobj) fmap \<Rightarrow> pyobj option" where
  "candidate as kws =
     (let c = (if length as = 1 \<and> fcard (fmdom kws) = 0 then Some (as ! 0) else None)
      in if length as = 0 \<and> fcard (fmdom kws) = 1 \<and> ''step_profile'' |\<in>| fmdom kws
         then fmlookup kws ''step_profile'' else c)"

definition isinstance_StepProfile :: "pyobj option \<Rightarrow> bool" where
  "isinstance_StepProfile x = (case x of Some (ProfileObj _) \<Rightarrow> True | _ \<Rightarrow> False)"

definition StepProfile_init ::
  "string \<Rightarrow> pyobj list \<Rightarrow> (string, pyobj) fmap \<Rightarrow> error + step_profile" where
  "StepProfile_init fn as kws =
     (let self =
        (case candidate as kws of
           Some (ProfileObj cand) \<Rightarrow>
             ArgumentsProfile_init (step_function cand) (StatePlaceholder # args cand)
               (kwargs cand)
         | _ \<Rightarrow> ArgumentsProfile_init fn (StatePlaceholder # as) kws)
      in case args self of
           [] \<Rightarrow> Inl IndexError
         | a # rest \<Rightarrow>
             if a = StatePlaceholder
             then Inr (StepProfile (step_function self) rest (kwargs self))
             else Inl AssertionError)"

text \<open>\<open>StepProfile.__eq__\<close> and \<open>__ne__\<close>, lines 240-246.\<close>

definition StepProfile_eq :: "step_profile \<Rightarrow> pyobj \<Rightarrow> bool" where
  "StepProfile_eq self other =
     (case other of ProfileObj p \<Rightarrow> ArgumentsProfile_eq self p | _ \<Rightarrow> False)"

definition StepProfile_ne :: "step_profile \<Rightarrow> pyobj \<Rightarrow> bool" where
  "StepProfile_ne self other = (\<not> StepProfile_eq self other)"


section \<open>The crunching manager (asynchronous\_crunching/crunching\_manager.py)\<close>

subsection \<open>The objects the manager works with\<close>

text \<open>
  Jobs, crunchers and crunching profiles are Python objects with identity, shared between
  the manager and its callers: they live in heaps indexed by references.
\<close>

type_synonym job_ref = nat
type_synonym cruncher_ref = nat
type_synonym profile_ref = nat
type_synonym cruncher_class = string

text \<open>
  Modelled from the spec: the tree, its nodes and \<open>Tree.add_state\<close>, \<open>Tree.make_end\<close>
  (garlicsim/data\_structures is not among the sources). A node carries \<open>.state\<close>,
  \<open>.still_in_editing\<close> and (through its state) \<open>.clock\<close>; \<open>add_state(state, parent,
  step_profile)\<close> appends a node below \<open>parent\<close> and returns it; \<open>make_end(node,
  step_profile)\<close> marks \<open>node\<close> as a terminal end of its branch. The manager never
  changes a node it holds, so a node is held by value; \<open>node_id\<close> is its identity.
  A node that comes from a cruncher's output is not in editing.
\<close>

record node =
  node_id :: nat
  node_state :: state
  parent :: "nat option"
  node_step_profile :: "step_profile option"
  still_in_editing :: bool

record tree =
  nodes :: "node list"
  ends :: "(nat \<times> step_profile) list"

definition add_state :: "tree \<Rightarrow> state \<Rightarrow> node \<Rightarrow> step_profile \<Rightarrow> node \<times> tree" where
  "add_state t st par sp =
     (let n = \<lparr>node_id = length (nodes t), node_state = st, parent = Some (node_id par),
                node_step_profile = Some sp, still_in_editing = False\<rparr>
      in (n, t\<lparr>nodes := nodes t @ [n]\<rparr>))"

definition make_end :: "tree \<Rightarrow> node \<Rightarrow> step_profile \<Rightarrow> tree" where
  "make_end t nd sp = t\<lparr>ends := ends t @ [(node_id nd, sp)]\<rparr>"

text \<open>
  Modelled from the spec: \<open>CrunchingProfile\<close> and \<open>Job\<close> (crunching\_profile.py and
  job.py are not among the sources). A crunching profile is \<open>{ clock_target: Number |
  Infinity, step_profile }\<close>; a job is \<open>{ node, crunching_profile, resulted_in_end }\<close>.
\<close>

datatype clock_target = Target int | Infinity

record crunching_profile =
  clock_target :: clock_target
  step_profile :: step_profile

record job =
  node :: node
  crunching_profile :: profile_ref
  resulted_in_end :: bool

text \<open>
  Modelled from the spec: the cruncher (base\_cruncher.py is not among the sources). The
  manager sees its class, \<open>is_alive()\<close>, its work queue, and calls \<open>start()\<close>,
  \<open>retire()\<close> and \<open>update_crunching_profile(profile)\<close>. Retirement is a request to a
  concurrent worker: \<open>alive\<close> is what \<open>is_alive()\<close> answers, and \<open>retire\<close> does not
  change it. The calls made on crunchers are recorded in order.
\<close>

record cruncher =
  cruncher_class :: cruncher_class
  alive :: bool
  work_queue :: "thing list"
  initial_state :: state
  cruncher_profile :: crunching_profile

datatype call =
    Start cruncher_ref
  | Retire cruncher_ref
  | UpdateCrunchingProfile cruncher_ref profile_ref

text \<open>
  The manager (the fields of \<open>CrunchingManager\<close>; \<open>tree\<close> is \<open>self.project.tree\<close>)
  together with the heaps. \<open>crunchers\<close> is a dict that is iterated over, kept as an
  association list; \<open>crunching_profiles_change_tracker\<close> holds, for each profile
  checked in, the version seen then.
\<close>

record manager =
  tree :: tree
  jobs :: "job_ref list"
  crunchers :: "(job_ref \<times> cruncher_ref) list"
  step_profiles :: "cruncher_ref \<rightharpoonup> step_profile"
  crunching_profiles_change_tracker :: "profile_ref \<rightharpoonup> crunching_profile"
  cruncher_type :: cruncher_class
  job_heap :: "job_ref \<Rightarrow> job"
  cruncher_heap :: "cruncher_ref \<Rightarrow> cruncher"
  profile_heap :: "profile_ref \<Rightarrow> crunching_profile"
  next_cruncher :: cruncher_ref
  calls :: "call list"

text \<open>
  Modelled from the spec: \<open>Job.is_done\<close>, "true iff \<open>resulted_in_end\<close> is true or the
  job's node's clock has reached or passed \<open>clock_target\<close>".
\<close>

definition reached :: "int \<Rightarrow> clock_target \<Rightarrow> bool" where
  "reached c t = (case t of Target x \<Rightarrow> x \<le> c | Infinity \<Rightarrow> False)"

definition is_done :: "manager \<Rightarrow> job_ref \<Rightarrow> bool" where
  "is_done m j \<longleftrightarrow>
     resulted_in_end (job_heap m j)
     \<or> reached (clock (node_state (node (job_heap m j))))
          (clock_target (profile_heap m (crunching_profile (job_heap m j))))"

definition is_alive :: "manager \<Rightarrow> cruncher_ref \<Rightarrow> bool" where
  "is_alive m c = alive (cruncher_heap m c)"

definition retire :: "manager \<Rightarrow> cruncher_ref \<Rightarrow> manager" where
  "retire m c = m\<lparr>calls := calls m @ [Retire c]\<rparr>"

definition start :: "manager \<Rightarrow> cruncher_ref \<Rightarrow> manager" where
  "start m c =
     m\<lparr>cruncher_heap := (cruncher_heap m)(c := (cruncher_heap m c)\<lparr>alive := True\<rparr>),
       calls := calls m @ [Start c]\<rparr>"

definition update_crunching_profile :: "manager \<Rightarrow> cruncher_ref \<Rightarrow> profile_ref \<Rightarrow> manager" where
  "update_crunching_profile m c p =
     m\<lparr>cruncher_heap :=
         (cruncher_heap m)(c := (cruncher_heap m c)\<lparr>cruncher_profile := profile_heap m p\<rparr>),
       calls := calls m @ [UpdateCrunchingProfile c p]\<rparr>"

text \<open>
  Modelled from the spec: \<open>ChangeTracker.check_in\<close> (general\_misc/change\_tracker.py is
  not among the sources): it "reports whether the object has mutated since the last
  check-in by this tracker instance, and resets the tracked version". An object never
  checked in counts as changed.
\<close>

definition check_in :: "manager \<Rightarrow> profile_ref \<Rightarrow> bool \<times> manager" where
  "check_in m p =
     (let current = profile_heap m p;
          recorded = m\<lparr>crunching_profiles_change_tracker :=
                         (crunching_profiles_change_tracker m)(p \<mapsto> current)\<rparr>
      in case crunching_profiles_change_tracker m p of
           None \<Rightarrow> (True, recorded)
         | Some previous \<Rightarrow> if previous = current then (False, m) else (True, recorded))"


subsection \<open>Construction\<close>

text \<open>
  \<open>CrunchingManager.__init__\<close>, lines 59-99. The project gives the tree, the simpack's
  name and \<open>simpack_grokker.available_cruncher_types\<close>; indexing the empty list raises
  \<open>IndexError\<close>, which is caught and replaced by \<open>GarlicSimException\<close>. The heaps are
  the objects that exist around the manager.
\<close>

record project =
  project_tree :: tree
  simpack_name :: string
  available_cruncher_types :: "cruncher_class list"

definition first_item :: "'a list \<Rightarrow> error + 'a" where
  "first_item xs = (case xs of [] \<Rightarrow> Inl IndexError | x # _ \<Rightarrow> Inr x)"

definition CrunchingManager_init ::
  "project \<Rightarrow> (job_ref \<Rightarrow> job) \<Rightarrow> (cruncher_ref \<Rightarrow> cruncher) \<Rightarrow> (profile_ref \<Rightarrow> crunching_profile)
     \<Rightarrow> error + manager" where
  "CrunchingManager_init proj jh ch ph =
     (case first_item (available_cruncher_types proj) of
        Inl IndexError \<Rightarrow> Inl (GarlicSimException (simpack_name proj))
      | Inl e \<Rightarrow> Inl e
      | Inr t \<Rightarrow>
          Inr \<lparr>tree = project_tree proj, jobs = [], crunchers = [],
               step_profiles = Map.empty, crunching_profiles_change_tracker = Map.empty,
               cruncher_type = t, job_heap = jh, cruncher_heap = ch, profile_heap = ph,
               next_cruncher = 0, calls = []\<rparr>)"

subsection \<open>Creating a cruncher\<close>

text \<open>
  \<open>__conditional_create_cruncher\<close>, lines 240-254. \<open>self.cruncher_type(self, node.state,
  crunching_profile)\<close> makes a new cruncher object, at the next free reference, with an
  empty work queue; \<open>self.crunchers[job] = cruncher\<close> replaces the job's entry or adds one.
\<close>

definition new_cruncher :: "manager \<Rightarrow> state \<Rightarrow> profile_ref \<Rightarrow> cruncher_ref \<times> manager" where
  "new_cruncher m st p =
     (let c = next_cruncher m
      in (c, m\<lparr>cruncher_heap := (cruncher_heap m)
                  (c := \<lparr>cruncher_class = cruncher_type m, alive = False, work_queue = [],
                         initial_state = st, cruncher_profile = profile_heap m p\<rparr>),
                next_cruncher := Suc c\<rparr>))"

definition conditional_create_cruncher :: "manager \<Rightarrow> job_ref \<Rightarrow> manager" where
  "conditional_create_cruncher m j =
     (let nd = node (job_heap m j);
          cp = crunching_profile (job_heap m j)
      in if still_in_editing nd = False then
           (let (c, m1) = new_cruncher m (node_state nd) cp;
                m2 = start m1 c;
                m3 = m2\<lparr>crunchers := AList.update j c (crunchers m2)\<rparr>;
                m4 = snd (check_in m3 cp)
            in m4\<lparr>step_profiles := (step_profiles m4)(c \<mapsto> step_profile (profile_heap m4 cp))\<rparr>)
         else m)"

subsection \<open>Taking work from a cruncher\<close>

text \<open>
  \<open>__add_work_to_tree\<close>, lines 266-314. \<open>add_things\<close> is the loop over the items of
  the work queue, with \<open>current\<close>, \<open>counter\<close> and the manager as its state; the
  \<open>isinstance\<close> tests come in the order of the source. An exception ends the call.
\<close>

fun add_things ::
  "cruncher_ref \<Rightarrow> job_ref \<Rightarrow> thing list \<Rightarrow> node \<times> nat \<times> manager \<Rightarrow> error + (node \<times> nat \<times> manager)" where
  "add_things c j [] acc = Inr acc"
| "add_things c j (StateThing st # rest) (current, counter, m) =
     (case step_profiles m c of
        None \<Rightarrow> Inl KeyError
      | Some sp \<Rightarrow>
          (let (nd, t) = add_state (tree m) st current sp
           in add_things c j rest (nd, counter + 1, m\<lparr>tree := t\<rparr>)))"
| "add_things c j (EndMarker # rest) (current, counter, m) =
     (case step_profiles m c of
        None \<Rightarrow> Inl KeyError
      | Some sp \<Rightarrow>
          add_things c j rest
            (current, counter,
             m\<lparr>tree := make_end (tree m) current sp,
               job_heap := (job_heap m)(j := (job_heap m j)\<lparr>resulted_in_end := True\<rparr>)\<rparr>))"
| "add_things c j (StepProfileThing sp # rest) (current, counter, m) =
     add_things c j rest (current, counter, m\<lparr>step_profiles := (step_profiles m)(c \<mapsto> sp)\<rparr>)"
| "add_things c j (OtherThing x # rest) (current, counter, m) = Inl (Exception (OtherThing x))"

text \<open>
  The items the loop has a branch for: instances of \<open>State\<close>, \<open>EndMarker\<close> or
  \<open>StepProfile\<close>.
\<close>

fun expected :: "thing \<Rightarrow> bool" where
  "expected (StateThing st) = True"
| "expected EndMarker = True"
| "expected (StepProfileThing sp) = True"
| "expected (OtherThing x) = False"

text \<open>
  Modelled from the spec: \<open>queue_tools.iterate\<close> (general\_misc/queue\_tools.py is not
  among the sources) "consumes every item currently available on the cruncher's
  WorkQueue", without waiting for more: the items are taken off the queue, in order.
\<close>

definition iterate :: "manager \<Rightarrow> cruncher_ref \<Rightarrow> thing list \<times> manager" where
  "iterate m c =
     (work_queue (cruncher_heap m c),
      m\<lparr>cruncher_heap := (cruncher_heap m)(c := (cruncher_heap m c)\<lparr>work_queue := []\<rparr>)\<rparr>)"

definition add_work_to_tree ::
  "manager \<Rightarrow> cruncher_ref \<Rightarrow> job_ref \<Rightarrow> bool \<Rightarrow> error + ((nat \<times> node) \<times> manager)" where
  "add_work_to_tree m c j retire_flag =
     (case step_profiles m c of
        None \<Rightarrow> Inl KeyError
      | Some _ \<Rightarrow>
          (let (things, m0) = iterate m c
           in case add_things c j things (node (job_heap m j), 0, m0) of
                Inl e \<Rightarrow> Inl e
              | Inr (current, counter, m1) \<Rightarrow>
                  Inr ((counter, current),
                       if retire_flag \<or> resulted_in_end (job_heap m1 j) then retire m1 c
                       else m1)))"

subsection \<open>Synchronising\<close>

text \<open>
  \<open>sync_crunchers\<close>, lines 103-236. \<open>reap\<close> is the first loop, over a copy of the
  items of \<open>self.crunchers\<close>; \<open>sync_job\<close> is the body of the second loop and
  \<open>sync_jobs\<close> that loop, over a copy of \<open>self.jobs\<close>. Both carry
  \<open>total_added_nodes\<close>. \<open>self.jobs.remove(job)\<close> raises \<open>ValueError\<close> when the job
  is not in the list.
\<close>

definition jobs_remove :: "manager \<Rightarrow> job_ref \<Rightarrow> error + manager" where
  "jobs_remove m j =
     (if j \<in> set (jobs m) then Inr (m\<lparr>jobs := remove1 j (jobs m)\<rparr>) else Inl ValueError)"

fun reap :: "(job_ref \<times> cruncher_ref) list \<Rightarrow> nat \<times> manager \<Rightarrow> error + (nat \<times> manager)" where
  "reap [] acc = Inr acc"
| "reap ((j, c) # rest) (total_added, m) =
     (if j \<notin> set (jobs m) then
        (case add_work_to_tree m c j True of
           Inl e \<Rightarrow> Inl e
         | Inr ((added_nodes, new_leaf), m1) \<Rightarrow>
             reap rest (total_added + added_nodes, m1\<lparr>crunchers := AList.delete j (crunchers m1)\<rparr>))
      else reap rest (total_added, m))"

definition sync_job :: "job_ref \<Rightarrow> nat \<times> manager \<Rightarrow> error + (nat \<times> manager)" where
  "sync_job j acc =
     (let (total_added, m) = acc
      in case map_of (crunchers m) j of
           None \<Rightarrow>
             if \<not> is_done m j then Inr (total_added, conditional_create_cruncher m j)
             else (case jobs_remove m j of Inl e \<Rightarrow> Inl e | Inr m1 \<Rightarrow> Inr (total_added, m1))
         | Some c \<Rightarrow>
             (case add_work_to_tree m c j False of
                Inl e \<Rightarrow> Inl e
              | Inr ((added_nodes, new_leaf), m1) \<Rightarrow>
                  (let total_added1 = total_added + added_nodes;
                       m2 = m1\<lparr>job_heap := (job_heap m1)(j := (job_heap m1 j)\<lparr>node := new_leaf\<rparr>)\<rparr>
                   in if \<not> is_done m2 j then
                        (let cp = crunching_profile (job_heap m2 j)
                         in if is_alive m2 c \<and> cruncher_class (cruncher_heap m2 c) = cruncher_type m2
                            then
                              (case step_profiles m2 c of
                                 None \<Rightarrow> Inl KeyError
                               | Some recorded \<Rightarrow>
                                   if StepProfile_ne (step_profile (profile_heap m2 cp))
                                        (ProfileObj recorded)
                                   then
                                     Inr (total_added1,
                                          conditional_create_cruncher
                                            (if is_alive m2 c then retire m2 c else m2) j)
                                   else
                                     (let (changed, m3) = check_in m2 cp
                                      in if changed
                                         then Inr (total_added1, update_crunching_profile m3 c cp)
                                         else Inr (total_added1, m3)))
                            else Inr (total_added1, conditional_create_cruncher (retire m2 c) j))
                      else
                        (case jobs_remove m2 j of
                           Inl e \<Rightarrow> Inl e
                         | Inr m3 \<Rightarrow>
                             (let m4 = (if is_alive m3 c then retire m3 c else m3)
                              in Inr (total_added1, m4\<lparr>crunchers := AList.delete j (crunchers m4)\<rparr>))))))"

fun sync_jobs :: "job_ref list \<Rightarrow> nat \<times> manager \<Rightarrow> error + (nat \<times> manager)" where
  "sync_jobs [] acc = Inr acc"
| "sync_jobs (j # rest) acc =
     (case sync_job j acc of Inl e \<Rightarrow> Inl e | Inr acc1 \<Rightarrow> sync_jobs rest acc1)"

definition sync_crunchers :: "manager \<Rightarrow> error + (nat \<times> manager)" where
  "sync_crunchers m =
     (case reap (crunchers m) (0, m) of
        Inl e \<Rightarrow> Inl e
      | Inr acc \<Rightarrow> sync_jobs (jobs (snd acc)) acc)"


section \<open>Example states\<close>

text \<open>
  A small project used to run the definitions: one root node, jobs that all start at the
  root with the same crunching profile, and crunchers of the selected class that are alive
  and hold the given work queue. Cruncher 0 is recorded with \<open>plain_step\<close>.
\<close>

definition plain_step :: step_profile where
  "plain_step = StepProfile ''step'' [] fmempty"

definition heavy_step :: step_profile where
  "heavy_step = StepProfile ''step'' [] (fmupd ''G'' (IntObj 3) fmempty)"

definition root_node :: "bool \<Rightarrow> node" where
  "root_node editing = \<lparr>node_id = 0, node_state = State 0 0, parent = None,
     node_step_profile = None, still_in_editing = editing\<rparr>"

definition example_job :: "bool \<Rightarrow> bool \<Rightarrow> job" where
  "example_job editing ended =
     \<lparr>node = root_node editing, crunching_profile = 0, resulted_in_end = ended\<rparr>"

definition example_profile :: "clock_target \<Rightarrow> step_profile \<Rightarrow> crunching_profile" where
  "example_profile target sp = \<lparr>clock_target = target, step_profile = sp\<rparr>"

definition example_manager ::
  "job_ref list \<Rightarrow> (job_ref \<times> cruncher_ref) list \<Rightarrow> thing list \<Rightarrow> job \<Rightarrow> crunching_profile
     \<Rightarrow> manager" where
  "example_manager js cs queue jb pr =
     \<lparr>tree = \<lparr>nodes = [root_node False], ends = []\<rparr>,
      jobs = js,
      crunchers = cs,
      step_profiles = [0 \<mapsto> plain_step],
      crunching_profiles_change_tracker = [0 \<mapsto> pr],
      cruncher_type = ''ThreadCruncher'',
      job_heap = (\<lambda>_. jb),
      cruncher_heap = (\<lambda>_. \<lparr>cruncher_class = ''ThreadCruncher'', alive = True,
         work_queue = queue, initial_state = State 0 0, cruncher_profile = pr\<rparr>),
      profile_heap = (\<lambda>_. pr),
      next_cruncher = 1,
      calls = []\<rparr>"

section \<open>Jobs that need no more attention\<close>

text \<open>
  Used for the invariant of the second loop of \<open>sync_crunchers\<close>: a job is settled when
  it is not done and its cruncher, if it has one, has nothing left on its work queue, so
  that going over the job again cannot make it done.
\<close>

definition settled :: "manager \<Rightarrow> job_ref \<Rightarrow> bool" where
  "settled m j \<longleftrightarrow>
     \<not> is_done m j
     \<and> (\<forall>c. map_of (crunchers m) j = Some c \<longrightarrow> work_queue (cruncher_heap m c) = [])"

section \<open>Properties of step profiles\<close>

lemma fcard_finsert_one: "fcard (finsert k D) = Suc 0 \<longleftrightarrow> D |\<subseteq>| {|k|}"
proof -
  have "card (insert k (fset D)) = Suc 0 \<longleftrightarrow> fset D \<subseteq> {k}"
  proof
    assume "card (insert k (fset D)) = Suc 0"
    then obtain x where "insert k (fset D) = {x}" by (auto simp: card_Suc_eq)
    then show "fset D \<subseteq> {k}" by auto
  next
    assume "fset D \<subseteq> {k}"
    then have "insert k (fset D) = {k}" by auto
    moreover have "card {k} = Suc 0" by simp
    ultimately show "card (insert k (fset D)) = Suc 0" by (simp only:)
  qed
  then show ?thesis by (simp add: fcard.rep_eq less_eq_fset.rep_eq)
qed

text \<open>
  With a keyword argument \<open>k\<close> present, the candidate is that argument's value exactly
  when it is the only argument and is called \<open>step_profile\<close>.
\<close>

lemma candidate_fmupd:
  "candidate as (fmupd k v kw) =
     (if as = [] \<and> fmdom kw |\<subseteq>| {|k|} \<and> k = ''step_profile'' then Some v else None)"
  by (auto simp: candidate_def Let_def fcard_finsert_one)

lemma StepProfile_init_total: "\<exists>p. StepProfile_init fn as kws = Inr p"
  by (auto simp: StepProfile_init_def ArgumentsProfile_init_def Let_def
      split: option.splits pyobj.splits)

lemma fmupd_value_differs: "v \<noteq> v' \<Longrightarrow> fmupd k v kw \<noteq> fmupd k v' kw"
proof
  assume "v \<noteq> v'" and "fmupd k v kw = fmupd k v' kw"
  then have "fmlookup (fmupd k v kw) k = fmlookup (fmupd k v' kw) k" by simp
  with \<open>v \<noteq> v'\<close> show False by simp
qed

text \<open>
  C9. The claim says that two step profiles built from the same step function and equal
  arguments compare equal, and that two built with one keyword argument of different
  values compare unequal. The second part fails where \<open>__init__\<close> copies a step profile
  passed as the only argument: \<open>StepProfile(step, step_profile=3)\<close> and
  \<open>StepProfile(step, step_profile=StepProfile(step, step_profile=3))\<close> are equal.
\<close>

theorem StepProfile_keyword_counterexample:
  "IntObj 3 \<noteq> ProfileObj (StepProfile ''step'' [] (fmupd ''step_profile'' (IntObj 3) fmempty))
   \<and> StepProfile_init ''step'' [] (fmupd ''step_profile'' (IntObj 3) fmempty)
       = Inr (StepProfile ''step'' [] (fmupd ''step_profile'' (IntObj 3) fmempty))
   \<and> StepProfile_init ''step'' []
        (fmupd ''step_profile''
           (ProfileObj (StepProfile ''step'' [] (fmupd ''step_profile'' (IntObj 3) fmempty)))
           fmempty)
       = Inr (StepProfile ''step'' [] (fmupd ''step_profile'' (IntObj 3) fmempty))
   \<and> StepProfile_eq (StepProfile ''step'' [] (fmupd ''step_profile'' (IntObj 3) fmempty))
        (ProfileObj (StepProfile ''step'' [] (fmupd ''step_profile'' (IntObj 3) fmempty)))"
  by (simp add: candidate_fmupd StepProfile_init_def ArgumentsProfile_init_def
      StepProfile_eq_def ArgumentsProfile_eq_def)

text \<open>
  C9, amended. Construction always succeeds and the instance equals itself, so two
  instances built from the same function and equal arguments compare equal. Two
  constructions that differ in the value of one keyword argument \<open>k\<close> give unequal
  instances whenever both or neither of them copy a step profile (the candidate of both,
  or of neither, is a \<open>StepProfile\<close>).
\<close>

theorem StepProfile_eq_by_arguments:
  assumes "v \<noteq> v'"
    and "isinstance_StepProfile (candidate as (fmupd k v kw))
         = isinstance_StepProfile (candidate as (fmupd k v' kw))"
  shows "(\<exists>p. StepProfile_init fn as kws = Inr p \<and> StepProfile_eq p (ProfileObj p))
    \<and> (\<exists>p q. StepProfile_init fn as (fmupd k v kw) = Inr p
            \<and> StepProfile_init fn as (fmupd k v' kw) = Inr q
            \<and> StepProfile_ne p (ProfileObj q))"
proof
  from StepProfile_init_total obtain p where "StepProfile_init fn as kws = Inr p" by blast
  then show "\<exists>p. StepProfile_init fn as kws = Inr p \<and> StepProfile_eq p (ProfileObj p)"
    by (simp add: StepProfile_eq_def ArgumentsProfile_eq_def)
next
  from assms(1) have "fmupd k v kw \<noteq> fmupd k v' kw" by (rule fmupd_value_differs)
  with assms
  show "\<exists>p q. StepProfile_init fn as (fmupd k v kw) = Inr p
            \<and> StepProfile_init fn as (fmupd k v' kw) = Inr q
            \<and> StepProfile_ne p (ProfileObj q)"
    by (auto simp: candidate_fmupd StepProfile_init_def ArgumentsProfile_init_def
        StepProfile_ne_def StepProfile_eq_def ArgumentsProfile_eq_def
        isinstance_StepProfile_def step_profile.expand split: pyobj.splits if_splits)
qed

theorem StepProfile_eq_by_arguments_witness:
  "IntObj 3 \<noteq> IntObj 4
   \<and> isinstance_StepProfile (candidate [StrObj ''billinear''] (fmupd ''G'' (IntObj 3) fmempty))
     = isinstance_StepProfile (candidate [StrObj ''billinear''] (fmupd ''G'' (IntObj 4) fmempty))
   \<and> StepProfile_init ''step'' [StrObj ''billinear''] (fmupd ''G'' (IntObj 3) fmempty)
     = Inr (StepProfile ''step'' [StrObj ''billinear''] (fmupd ''G'' (IntObj 3) fmempty))
   \<and> StepProfile_ne (StepProfile ''step'' [StrObj ''billinear''] (fmupd ''G'' (IntObj 3) fmempty))
        (ProfileObj (StepProfile ''step'' [StrObj ''billinear''] (fmupd ''G'' (IntObj 4) fmempty)))"
  using StepProfile_eq_by_arguments
    [of "IntObj 3" "IntObj 4" "[StrObj ''billinear'']" "''G''" fmempty "''step''" fmempty]
  by (simp add: candidate_fmupd StepProfile_init_def ArgumentsProfile_init_def)

section \<open>Properties of the crunching manager\<close>

text \<open>
  C8. Constructing a manager raises the configuration error (\<open>GarlicSimException\<close> in the
  code) when the project's list of available cruncher types is empty, and otherwise
  succeeds with \<open>cruncher_type\<close> the first element of the list.
\<close>

theorem CrunchingManager_init_cruncher_type:
  "map_sum id cruncher_type (CrunchingManager_init proj jh ch ph) =
     (case available_cruncher_types proj of
        [] \<Rightarrow> Inl (GarlicSimException (simpack_name proj))
      | t # _ \<Rightarrow> Inr t)"
  by (simp add: CrunchingManager_init_def first_item_def split: list.splits)


subsection \<open>The loop over the work queue\<close>

text \<open>What the loop leaves alone, and what it does to the job and to the recorded profiles.\<close>

lemma add_things_frame:
  "add_things c j things (cur, n, m) = Inr (cur', n', m') \<Longrightarrow>
     jobs m' = jobs m \<and> crunchers m' = crunchers m \<and> cruncher_heap m' = cruncher_heap m
     \<and> profile_heap m' = profile_heap m \<and> next_cruncher m' = next_cruncher m
     \<and> cruncher_type m' = cruncher_type m \<and> calls m' = calls m
     \<and> crunching_profiles_change_tracker m' = crunching_profiles_change_tracker m"
proof (induction c j things "(cur, n, m)" arbitrary: cur n m rule: add_things.induct)
  case (1 c j)
  then show ?case by simp
next
  case (2 c j st rest current counter m)
  then show ?case by (auto split: option.splits prod.splits simp: add_state_def Let_def)
next
  case (3 c j rest current counter m)
  then show ?case by (auto split: option.splits)
next
  case (4 c j sp rest current counter m)
  then show ?case by auto
next
  case (5 c j x rest current counter m)
  then show ?case by simp
qed

lemma add_things_job_heap:
  "add_things c j things (cur, n, m) = Inr (cur', n', m') \<Longrightarrow>
     job_heap m' = (job_heap m)(j := (job_heap m j)\<lparr>resulted_in_end :=
        resulted_in_end (job_heap m j) \<or> EndMarker \<in> set things\<rparr>)"
proof (induction c j things "(cur, n, m)" arbitrary: cur n m rule: add_things.induct)
  case (1 c j)
  then show ?case by simp
next
  case (2 c j st rest current counter m)
  then show ?case by (auto split: option.splits prod.splits simp: add_state_def Let_def)
next
  case (3 c j rest current counter m)
  then show ?case by (auto split: option.splits)
next
  case (4 c j sp rest current counter m)
  then show ?case by auto
next
  case (5 c j x rest current counter m)
  then show ?case by simp
qed

lemma add_things_step_profiles:
  "add_things c j things (cur, n, m) = Inr (cur', n', m') \<Longrightarrow>
     (\<forall>c'. c' \<noteq> c \<longrightarrow> step_profiles m' c' = step_profiles m c')
     \<and> (step_profiles m c \<noteq> None \<longrightarrow> step_profiles m' c \<noteq> None)"
proof (induction c j things "(cur, n, m)" arbitrary: cur n m rule: add_things.induct)
  case (1 c j)
  then show ?case by simp
next
  case (2 c j st rest current counter m)
  then show ?case by (auto split: option.splits prod.splits simp: add_state_def Let_def)
next
  case (3 c j rest current counter m)
  then show ?case by (auto split: option.splits)
next
  case (4 c j sp rest current counter m)
  then show ?case by auto
next
  case (5 c j x rest current counter m)
  then show ?case by simp
qed

lemma add_things_append:
  "add_things c j (xs @ ys) acc =
     (case add_things c j xs acc of Inl e \<Rightarrow> Inl e | Inr acc1 \<Rightarrow> add_things c j ys acc1)"
proof (induction c j xs acc rule: add_things.induct)
  case (2 c j st rest current counter m)
  then show ?case by (auto split: option.splits prod.splits)
qed (auto split: option.splits)

lemma add_things_expected:
  "list_all expected things \<Longrightarrow> step_profiles m c \<noteq> None \<Longrightarrow>
     \<exists>r. add_things c j things (cur, n, m) = Inr r"
proof (induction c j things "(cur, n, m)" arbitrary: cur n m rule: add_things.induct)
  case (2 c j st rest current counter m)
  then show ?case by (auto split: option.splits prod.splits)
qed (auto split: option.splits)

lemma add_things_ends:
  "add_things c j things (cur, n, m) = Inr (cur', n', m') \<Longrightarrow>
     set (ends (tree m)) \<subseteq> set (ends (tree m'))"
proof (induction c j things "(cur, n, m)" arbitrary: cur n m rule: add_things.induct)
  case (2 c j st rest current counter m)
  then show ?case by (fastforce split: option.splits prod.splits simp: add_state_def Let_def)
next
  case (3 c j rest current counter m)
  then show ?case by (fastforce split: option.splits simp: make_end_def)
qed auto

text \<open>
  A queue of states only: one node per state, each below the one before, the first below
  the starting node, all tagged with the recorded profile.
\<close>

lemma add_things_states:
  "step_profiles m c = Some sp \<Longrightarrow>
   \<exists>new. add_things c j (map StateThing sts) (cur, n, m)
               = Inr (last (cur # new), n + length sts,
                      m\<lparr>tree := (tree m)\<lparr>nodes := nodes (tree m) @ new\<rparr>\<rparr>)
     \<and> length new = length sts
     \<and> (\<forall>i<length sts. node_state (new ! i) = sts ! i
            \<and> node_step_profile (new ! i) = Some sp
            \<and> parent (new ! i) = Some (node_id ((cur # new) ! i)))"
proof (induction sts arbitrary: cur n m)
  case Nil
  then show ?case by simp
next
  case (Cons st sts)
  define nd where "nd = \<lparr>node_id = length (nodes (tree m)), node_state = st,
     parent = Some (node_id cur), node_step_profile = Some sp, still_in_editing = False\<rparr>"
  define t where "t = (tree m)\<lparr>nodes := nodes (tree m) @ [nd]\<rparr>"
  have st: "add_state (tree m) st cur sp = (nd, t)"
    by (simp add: add_state_def Let_def nd_def t_def)
  from Cons.prems have sp': "step_profiles (m\<lparr>tree := t\<rparr>) c = Some sp" by simp
  from Cons.IH[OF sp', of nd "n + 1"] obtain new where
    run: "add_things c j (map StateThing sts) (nd, n + 1, m\<lparr>tree := t\<rparr>)
            = Inr (last (nd # new), n + 1 + length sts,
                   m\<lparr>tree := t\<rparr>\<lparr>tree := (tree (m\<lparr>tree := t\<rparr>))
                       \<lparr>nodes := nodes (tree (m\<lparr>tree := t\<rparr>)) @ new\<rparr>\<rparr>)"
    and len: "length new = length sts"
    and each: "\<forall>i<length sts. node_state (new ! i) = sts ! i
            \<and> node_step_profile (new ! i) = Some sp
            \<and> parent (new ! i) = Some (node_id ((nd # new) ! i))"
    by blast
  have "add_things c j (map StateThing (st # sts)) (cur, n, m)
          = Inr (last (cur # nd # new), n + length (st # sts),
                 m\<lparr>tree := (tree m)\<lparr>nodes := nodes (tree m) @ nd # new\<rparr>\<rparr>)"
    using Cons.prems st run by (simp add: t_def)
  moreover have "length (nd # new) = length (st # sts)" using len by simp
  moreover have "\<forall>i<length (st # sts). node_state ((nd # new) ! i) = (st # sts) ! i
            \<and> node_step_profile ((nd # new) ! i) = Some sp
            \<and> parent ((nd # new) ! i) = Some (node_id ((cur # nd # new) ! i))"
  proof (intro allI impI)
    fix i assume "i < length (st # sts)"
    then show "node_state ((nd # new) ! i) = (st # sts) ! i
            \<and> node_step_profile ((nd # new) ! i) = Some sp
            \<and> parent ((nd # new) ! i) = Some (node_id ((cur # nd # new) ! i))"
      using each by (cases i) (auto simp: nd_def)
  qed
  ultimately show ?case by blast
qed

subsection \<open>Taking work from one cruncher\<close>

lemma add_work_to_tree_frame:
  assumes "add_work_to_tree m c j r = Inr ((n, cur), m')"
  shows "jobs m' = jobs m" and "crunchers m' = crunchers m"
    and "profile_heap m' = profile_heap m" and "next_cruncher m' = next_cruncher m"
    and "cruncher_type m' = cruncher_type m"
    and "crunching_profiles_change_tracker m' = crunching_profiles_change_tracker m"
    and "cruncher_heap m' = (cruncher_heap m)(c := (cruncher_heap m c)\<lparr>work_queue := []\<rparr>)"
    and "job_heap m' = (job_heap m)(j := (job_heap m j)\<lparr>resulted_in_end :=
           resulted_in_end (job_heap m j) \<or> EndMarker \<in> set (work_queue (cruncher_heap m c))\<rparr>)"
    and "calls m' = (if r \<or> resulted_in_end (job_heap m' j) then calls m @ [Retire c] else calls m)"
    and "step_profiles m c \<noteq> None"
    and "step_profiles m' c \<noteq> None"
    and "\<forall>c'. c' \<noteq> c \<longrightarrow> step_profiles m' c' = step_profiles m c'"
proof -
  let ?m0 = "m\<lparr>cruncher_heap := (cruncher_heap m)(c := (cruncher_heap m c)\<lparr>work_queue := []\<rparr>)\<rparr>"
  from assms show sp: "step_profiles m c \<noteq> None"
    by (auto simp: add_work_to_tree_def split: option.splits)
  from assms sp obtain n1 m1 where
    run: "add_things c j (work_queue (cruncher_heap m c)) (node (job_heap m j), 0, ?m0) = Inr (cur, n1, m1)"
    and m': "m' = (if r \<or> resulted_in_end (job_heap m1 j) then retire m1 c else m1)"
    by (auto simp: add_work_to_tree_def iterate_def split: option.splits sum.splits)
  note fr = add_things_frame[OF run] and jh = add_things_job_heap[OF run]
    and sps = add_things_step_profiles[OF run]
  show "jobs m' = jobs m" using fr m' by (simp add: retire_def)
  show "crunchers m' = crunchers m" using fr m' by (simp add: retire_def)
  show "profile_heap m' = profile_heap m" using fr m' by (simp add: retire_def)
  show "next_cruncher m' = next_cruncher m" using fr m' by (simp add: retire_def)
  show "cruncher_type m' = cruncher_type m" using fr m' by (simp add: retire_def)
  show "crunching_profiles_change_tracker m' = crunching_profiles_change_tracker m"
    using fr m' by (simp add: retire_def)
  show "cruncher_heap m' = (cruncher_heap m)(c := (cruncher_heap m c)\<lparr>work_queue := []\<rparr>)"
    using fr m' by (simp add: retire_def)
  show "job_heap m' = (job_heap m)(j := (job_heap m j)\<lparr>resulted_in_end :=
           resulted_in_end (job_heap m j) \<or> EndMarker \<in> set (work_queue (cruncher_heap m c))\<rparr>)"
    using jh m' by (simp add: retire_def)
  show "calls m' = (if r \<or> resulted_in_end (job_heap m' j) then calls m @ [Retire c] else calls m)"
    using fr m' by (simp add: retire_def)
  show "step_profiles m' c \<noteq> None" using sps sp m' by (simp add: retire_def)
  show "\<forall>c'. c' \<noteq> c \<longrightarrow> step_profiles m' c' = step_profiles m c'"
    using sps m' by (simp add: retire_def)
qed

lemma add_work_to_tree_returns:
  assumes "list_all expected (work_queue (cruncher_heap m c))" and "step_profiles m c \<noteq> None"
  shows "\<exists>n cur m'. add_work_to_tree m c j r = Inr ((n, cur), m')"
proof -
  let ?m0 = "m\<lparr>cruncher_heap := (cruncher_heap m)(c := (cruncher_heap m c)\<lparr>work_queue := []\<rparr>)\<rparr>"
  have "step_profiles ?m0 c \<noteq> None" using assms(2) by simp
  from add_things_expected[OF assms(1) this]
  obtain res where "add_things c j (work_queue (cruncher_heap m c)) (node (job_heap m j), 0, ?m0) = Inr res"
    by blast
  then show ?thesis using assms(2)
    by (cases res) (auto simp: add_work_to_tree_def iterate_def)
qed

lemma add_work_to_tree_run:
  assumes "add_work_to_tree m c j r = Inr ((n, cur), m')"
  shows "\<exists>m1. add_things c j (work_queue (cruncher_heap m c))
                 (node (job_heap m j), 0, snd (iterate m c)) = Inr (cur, n, m1)
             \<and> tree m' = tree m1"
  using assms
  by (auto simp: add_work_to_tree_def iterate_def retire_def split: option.splits sum.splits)

lemma add_things_unexpected:
  "list_all expected pre \<Longrightarrow> step_profiles m c \<noteq> None \<Longrightarrow>
     add_things c j (pre @ OtherThing x # post) (cur, n, m) = Inl (Exception (OtherThing x))"
proof (induction c j pre "(cur, n, m)" arbitrary: cur n m rule: add_things.induct)
  case (2 c j st rest current counter m)
  then show ?case by (auto split: option.splits prod.splits)
qed (auto split: option.splits)

lemma add_work_to_tree_unexpected:
  assumes "work_queue (cruncher_heap m c) = pre @ OtherThing x # post"
    and "list_all expected pre" and "step_profiles m c \<noteq> None"
  shows "add_work_to_tree m c j r = Inl (Exception (OtherThing x))"
proof -
  let ?m0 = "m\<lparr>cruncher_heap := (cruncher_heap m)(c := (cruncher_heap m c)\<lparr>work_queue := []\<rparr>)\<rparr>"
  have "step_profiles ?m0 c \<noteq> None" using assms(3) by simp
  from add_things_unexpected[OF assms(2) this]
  show ?thesis using assms(1,3) by (auto simp: add_work_to_tree_def iterate_def)
qed

lemmas example_defs =
  example_manager_def example_job_def example_profile_def plain_step_def heavy_step_def
  root_node_def add_work_to_tree_def iterate_def add_state_def make_end_def retire_def
  start_def check_in_def update_crunching_profile_def conditional_create_cruncher_def
  new_cruncher_def sync_crunchers_def sync_job_def jobs_remove_def is_done_def is_alive_def
  reached_def StepProfile_ne_def StepProfile_eq_def ArgumentsProfile_eq_def Let_def

text \<open>
  C1. When the work queue of a cruncher holds exactly the states \<open>sts\<close>, taking its
  work adds \<open>length sts\<close> nodes at the end of the tree's nodes, in the order of the queue:
  node \<open>i\<close> holds state \<open>i\<close>, is tagged with the step profile recorded for the cruncher,
  and is a child of the node before it (of the job's node for the first). The call returns
  the number of states and the last node added (the job's node when there was none).
\<close>

theorem add_work_to_tree_states:
  assumes "work_queue (cruncher_heap m c) = map StateThing sts"
    and "step_profiles m c = Some sp"
  shows "\<exists>new m'. add_work_to_tree m c j r
                     = Inr ((length sts, last (node (job_heap m j) # new)), m')
     \<and> nodes (tree m') = nodes (tree m) @ new
     \<and> length new = length sts
     \<and> (\<forall>i<length sts. node_state (new ! i) = sts ! i
            \<and> node_step_profile (new ! i) = Some sp
            \<and> parent (new ! i) = Some (node_id ((node (job_heap m j) # new) ! i)))"
proof -
  let ?m0 = "m\<lparr>cruncher_heap := (cruncher_heap m)(c := (cruncher_heap m c)\<lparr>work_queue := []\<rparr>)\<rparr>"
  have "step_profiles ?m0 c = Some sp" using assms(2) by simp
  from add_things_states[OF this, of j sts "node (job_heap m j)" 0]
  obtain new where
    run: "add_things c j (map StateThing sts) (node (job_heap m j), 0, ?m0)
            = Inr (last (node (job_heap m j) # new), 0 + length sts,
                   ?m0\<lparr>tree := (tree ?m0)\<lparr>nodes := nodes (tree ?m0) @ new\<rparr>\<rparr>)"
    and len: "length new = length sts"
    and each: "\<forall>i<length sts. node_state (new ! i) = sts ! i
            \<and> node_step_profile (new ! i) = Some sp
            \<and> parent (new ! i) = Some (node_id ((node (job_heap m j) # new) ! i))"
    by blast
  let ?m1 = "?m0\<lparr>tree := (tree ?m0)\<lparr>nodes := nodes (tree ?m0) @ new\<rparr>\<rparr>"
  let ?m' = "if r \<or> resulted_in_end (job_heap ?m1 j) then retire ?m1 c else ?m1"
  have "add_work_to_tree m c j r
          = Inr ((length sts, last (node (job_heap m j) # new)), ?m')"
    using assms run by (simp add: add_work_to_tree_def iterate_def)
  moreover have "nodes (tree ?m') = nodes (tree m) @ new" by (simp add: retire_def)
  ultimately show ?thesis using len each by blast
qed

theorem add_work_to_tree_states_witness:
  "work_queue (cruncher_heap
      (example_manager [0] [(0, 0)] [StateThing (State 1 7), StateThing (State 2 8)]
         (example_job False False) (example_profile Infinity plain_step)) 0)
     = map StateThing [State 1 7, State 2 8]
   \<and> step_profiles
      (example_manager [0] [(0, 0)] [StateThing (State 1 7), StateThing (State 2 8)]
         (example_job False False) (example_profile Infinity plain_step)) 0 = Some plain_step
   \<and> fst (projr (add_work_to_tree
      (example_manager [0] [(0, 0)] [StateThing (State 1 7), StateThing (State 2 8)]
         (example_job False False) (example_profile Infinity plain_step)) 0 0 False))
     = (2, \<lparr>node_id = 2, node_state = State 2 8, parent = Some 1,
            node_step_profile = Some plain_step, still_in_editing = False\<rparr>)"
  using add_work_to_tree_states
    [of "example_manager [0] [(0, 0)] [StateThing (State 1 7), StateThing (State 2 8)]
           (example_job False False) (example_profile Infinity plain_step)"
        0 "[State 1 7, State 2 8]" plain_step 0 False]
  by (simp add: example_defs)

text \<open>
  C4. When the work queue holds an end marker, taking the cruncher's work with
  \<open>retire=False\<close> returns whenever the other items are expected ones and the cruncher has
  a recorded profile, and whenever it returns: the cruncher has been retired as the last
  thing, the job's \<open>resulted_in_end\<close> is set, and the node that was current when the
  marker was reached is an end of the tree, tagged with the profile recorded for the cruncher
  at that moment.
\<close>

theorem end_marker_forces_retirement:
  assumes "work_queue (cruncher_heap m c) = pre @ EndMarker # post"
  shows "(list_all expected (pre @ post) \<and> step_profiles m c \<noteq> None
            \<longrightarrow> (\<exists>res. add_work_to_tree m c j False = Inr res))
    \<and> (\<forall>n cur m'. add_work_to_tree m c j False = Inr ((n, cur), m') \<longrightarrow>
          calls m' = calls m @ [Retire c]
          \<and> resulted_in_end (job_heap m' j)
          \<and> (\<exists>cur1 n1 m1 sp1.
                add_things c j pre (node (job_heap m j), 0, snd (iterate m c)) = Inr (cur1, n1, m1)
                \<and> step_profiles m1 c = Some sp1
                \<and> (node_id cur1, sp1) \<in> set (ends (tree m'))))"
proof (intro conjI allI impI)
  assume "list_all expected (pre @ post) \<and> step_profiles m c \<noteq> None"
  then have "list_all expected (work_queue (cruncher_heap m c))" and "step_profiles m c \<noteq> None"
    using assms by simp_all
  from add_work_to_tree_returns[OF this]
  show "\<exists>res. add_work_to_tree m c j False = Inr res" by blast
next
  fix n cur m'
  assume ret: "add_work_to_tree m c j False = Inr ((n, cur), m')"
  from add_work_to_tree_frame(8)[OF ret] assms
  show fl: "resulted_in_end (job_heap m' j)" by simp
  from add_work_to_tree_frame(9)[OF ret] fl
  show "calls m' = calls m @ [Retire c]" by simp
  from add_work_to_tree_run[OF ret] assms obtain mf where
    run: "add_things c j (pre @ EndMarker # post)
            (node (job_heap m j), 0, snd (iterate m c)) = Inr (cur, n, mf)"
    and tr: "tree m' = tree mf" by auto
  from run obtain cur1 n1 m1 where
    p: "add_things c j pre (node (job_heap m j), 0, snd (iterate m c)) = Inr (cur1, n1, m1)"
    and q: "add_things c j (EndMarker # post) (cur1, n1, m1) = Inr (cur, n, mf)"
    by (auto simp: add_things_append split: sum.splits)
  from q obtain sp1 where sp1: "step_profiles m1 c = Some sp1"
    and q': "add_things c j post (cur1, n1,
               m1\<lparr>tree := make_end (tree m1) cur1 sp1,
                  job_heap := (job_heap m1)(j := (job_heap m1 j)\<lparr>resulted_in_end := True\<rparr>)\<rparr>)
              = Inr (cur, n, mf)"
    by (auto split: option.splits)
  from add_things_ends[OF q'] have "(node_id cur1, sp1) \<in> set (ends (tree mf))"
    by (auto simp: make_end_def)
  with p sp1 tr
  show "\<exists>cur1 n1 m1 sp1.
          add_things c j pre (node (job_heap m j), 0, snd (iterate m c)) = Inr (cur1, n1, m1)
          \<and> step_profiles m1 c = Some sp1
          \<and> (node_id cur1, sp1) \<in> set (ends (tree m'))"
    by auto
qed

theorem end_marker_forces_retirement_witness:
  "work_queue (cruncher_heap
      (example_manager [0] [(0, 0)] [StateThing (State 1 7), EndMarker]
         (example_job False False) (example_profile Infinity plain_step)) 0)
     = [StateThing (State 1 7)] @ EndMarker # []
   \<and> list_all expected ([StateThing (State 1 7)] @ [])
   \<and> step_profiles
      (example_manager [0] [(0, 0)] [StateThing (State 1 7), EndMarker]
         (example_job False False) (example_profile Infinity plain_step)) 0 \<noteq> None
   \<and> calls (snd (projr (add_work_to_tree
      (example_manager [0] [(0, 0)] [StateThing (State 1 7), EndMarker]
         (example_job False False) (example_profile Infinity plain_step)) 0 0 False)))
     = [Retire 0]
   \<and> ends (tree (snd (projr (add_work_to_tree
      (example_manager [0] [(0, 0)] [StateThing (State 1 7), EndMarker]
         (example_job False False) (example_profile Infinity plain_step)) 0 0 False))))
     = [(1, plain_step)]"
  using end_marker_forces_retirement
    [of "example_manager [0] [(0, 0)] [StateThing (State 1 7), EndMarker]
           (example_job False False) (example_profile Infinity plain_step)"
        0 "[StateThing (State 1 7)]" "[]" 0]
  by (simp add: example_defs)

text \<open>
  C10. When the job's \<open>resulted_in_end\<close> is already set, taking the cruncher's work with
  \<open>retire=False\<close> returns whenever the items are expected ones and the cruncher has a
  recorded profile, and whenever it returns the cruncher has been retired as the last thing,
  whatever the queue held: the test is on the job's flag.
\<close>

theorem ended_job_forces_retirement:
  assumes "resulted_in_end (job_heap m j)"
  shows "(list_all expected (work_queue (cruncher_heap m c)) \<and> step_profiles m c \<noteq> None
            \<longrightarrow> (\<exists>res. add_work_to_tree m c j False = Inr res))
    \<and> (\<forall>n cur m'. add_work_to_tree m c j False = Inr ((n, cur), m') \<longrightarrow>
          calls m' = calls m @ [Retire c])"
proof (intro conjI allI impI)
  assume "list_all expected (work_queue (cruncher_heap m c)) \<and> step_profiles m c \<noteq> None"
  then show "\<exists>res. add_work_to_tree m c j False = Inr res"
    using add_work_to_tree_returns by blast
next
  fix n cur m'
  assume ret: "add_work_to_tree m c j False = Inr ((n, cur), m')"
  from add_work_to_tree_frame(8)[OF ret] assms have "resulted_in_end (job_heap m' j)" by simp
  with add_work_to_tree_frame(9)[OF ret] show "calls m' = calls m @ [Retire c]" by simp
qed

theorem ended_job_forces_retirement_witness:
  "resulted_in_end (job_heap
      (example_manager [0] [(0, 0)] [StateThing (State 1 7)]
         (example_job False True) (example_profile Infinity plain_step)) 0)
   \<and> EndMarker \<notin> set (work_queue (cruncher_heap
      (example_manager [0] [(0, 0)] [StateThing (State 1 7)]
         (example_job False True) (example_profile Infinity plain_step)) 0))
   \<and> calls (snd (projr (add_work_to_tree
      (example_manager [0] [(0, 0)] [StateThing (State 1 7)]
         (example_job False True) (example_profile Infinity plain_step)) 0 0 False)))
     = [Retire 0]"
  using ended_job_forces_retirement
    [of "example_manager [0] [(0, 0)] [StateThing (State 1 7)]
           (example_job False True) (example_profile Infinity plain_step)" 0 0]
  by (simp add: example_defs)


subsection \<open>One synchronisation\<close>

lemma check_in_tracker:
  "snd (check_in m p) =
     m\<lparr>crunching_profiles_change_tracker :=
         (crunching_profiles_change_tracker m)(p \<mapsto> profile_heap m p)\<rparr>"
  by (auto simp: check_in_def Let_def fun_upd_idem split: option.splits)

lemma conditional_create_cruncher_eq:
  "conditional_create_cruncher m j =
     (if still_in_editing (node (job_heap m j)) then m
      else m\<lparr>cruncher_heap := (cruncher_heap m)
               (next_cruncher m := \<lparr>cruncher_class = cruncher_type m, alive = True,
                  work_queue = [], initial_state = node_state (node (job_heap m j)),
                  cruncher_profile = profile_heap m (crunching_profile (job_heap m j))\<rparr>),
             next_cruncher := Suc (next_cruncher m),
             calls := calls m @ [Start (next_cruncher m)],
             crunchers := AList.update j (next_cruncher m) (crunchers m),
             crunching_profiles_change_tracker :=
               (crunching_profiles_change_tracker m)
                 (crunching_profile (job_heap m j) \<mapsto>
                    profile_heap m (crunching_profile (job_heap m j))),
             step_profiles := (step_profiles m)
               (next_cruncher m \<mapsto>
                  step_profile (profile_heap m (crunching_profile (job_heap m j))))\<rparr>)"
  by (simp add: conditional_create_cruncher_def new_cruncher_def start_def check_in_tracker Let_def)

lemma sync_job_raises:
  "map_of (crunchers m) j = Some c \<Longrightarrow> add_work_to_tree m c j False = Inl e \<Longrightarrow>
     sync_job j (t, m) = Inl e"
  by (simp add: sync_job_def)

lemma sync_jobs_append:
  "sync_jobs (xs @ ys) acc =
     (case sync_jobs xs acc of Inl e \<Rightarrow> Inl e | Inr acc1 \<Rightarrow> sync_jobs ys acc1)"
  by (induction xs arbitrary: acc) (auto split: sum.splits)

lemma reap_append:
  "reap (xs @ ys) acc =
     (case reap xs acc of Inl e \<Rightarrow> Inl e | Inr acc1 \<Rightarrow> reap ys acc1)"
proof (induction xs acc rule: reap.induct)
  case (2 j c rest total_added m)
  then show ?case by (auto split: sum.splits prod.splits)
qed simp

text \<open>
  C7. When the work queue of a cruncher with a recorded profile holds an item that is
  neither a state, an end marker nor a step profile, after expected items only, taking its
  work raises the exception for that item (\<open>Exception\<close> in the code, the spec's
  \<open>UnexpectedQueueItem\<close>); nothing in \<open>sync_crunchers\<close> catches it: when the cruncher
  is reached by the first loop (its job is no longer in \<open>jobs\<close>) or by the second (its
  job is), the whole call raises it.
\<close>

theorem unexpected_thing_raises:
  assumes "work_queue (cruncher_heap m c) = pre @ OtherThing x # post"
    and "list_all expected pre"
    and "step_profiles m c \<noteq> None"
  shows "add_work_to_tree m c j r = Inl (Exception (OtherThing x))
    \<and> (crunchers m0 = cs1 @ (j, c) # cs2 \<and> reap cs1 (0, m0) = Inr (t, m) \<and> j \<notin> set (jobs m)
          \<longrightarrow> sync_crunchers m0 = Inl (Exception (OtherThing x)))
    \<and> (reap (crunchers m1) (0, m1) = Inr acc \<and> jobs (snd acc) = js1 @ j # js2
        \<and> sync_jobs js1 acc = Inr (t', m) \<and> map_of (crunchers m) j = Some c
          \<longrightarrow> sync_crunchers m1 = Inl (Exception (OtherThing x)))"
proof (intro conjI impI)
  show "add_work_to_tree m c j r = Inl (Exception (OtherThing x))"
    using assms by (rule add_work_to_tree_unexpected)
next
  assume h: "crunchers m0 = cs1 @ (j, c) # cs2 \<and> reap cs1 (0, m0) = Inr (t, m)
    \<and> j \<notin> set (jobs m)"
  have "add_work_to_tree m c j True = Inl (Exception (OtherThing x))"
    using assms by (rule add_work_to_tree_unexpected)
  with h have "reap ((j, c) # cs2) (t, m) = Inl (Exception (OtherThing x))" by simp
  with h show "sync_crunchers m0 = Inl (Exception (OtherThing x))"
    by (simp add: sync_crunchers_def reap_append)
next
  assume h: "reap (crunchers m1) (0, m1) = Inr acc \<and> jobs (snd acc) = js1 @ j # js2
        \<and> sync_jobs js1 acc = Inr (t', m) \<and> map_of (crunchers m) j = Some c"
  have "add_work_to_tree m c j False = Inl (Exception (OtherThing x))"
    using assms by (rule add_work_to_tree_unexpected)
  with h have "sync_job j (t', m) = Inl (Exception (OtherThing x))"
    by (simp add: sync_job_raises)
  then have "sync_jobs (j # js2) (t', m) = Inl (Exception (OtherThing x))" by simp
  with h show "sync_crunchers m1 = Inl (Exception (OtherThing x))"
    by (simp add: sync_crunchers_def sync_jobs_append)
qed

theorem unexpected_thing_raises_witness:
  "work_queue (cruncher_heap
      (example_manager [] [(0, 0)] [StateThing (State 1 7), OtherThing ''junk'']
         (example_job False False) (example_profile Infinity plain_step)) 0)
     = [StateThing (State 1 7)] @ OtherThing ''junk'' # []
   \<and> list_all expected [StateThing (State 1 7)]
   \<and> sync_crunchers
      (example_manager [] [(0, 0)] [StateThing (State 1 7), OtherThing ''junk'']
         (example_job False False) (example_profile Infinity plain_step))
     = Inl (Exception (OtherThing ''junk''))
   \<and> sync_crunchers
      (example_manager [0] [(0, 0)] [StateThing (State 1 7), OtherThing ''junk'']
         (example_job False False) (example_profile Infinity plain_step))
     = Inl (Exception (OtherThing ''junk''))"
  using unexpected_thing_raises
    [where m = "example_manager [] [(0, 0)] [StateThing (State 1 7), OtherThing ''junk'']
           (example_job False False) (example_profile Infinity plain_step)"
       and c = 0 and pre = "[StateThing (State 1 7)]" and x = "''junk''" and post = "[]"
       and j = 0 and t = 0 and ?cs1.0 = "[]" and ?cs2.0 = "[]"
       and ?m0.0 = "example_manager [] [(0, 0)] [StateThing (State 1 7), OtherThing ''junk'']
           (example_job False False) (example_profile Infinity plain_step)"]
    unexpected_thing_raises
    [where m = "example_manager [0] [(0, 0)] [StateThing (State 1 7), OtherThing ''junk'']
           (example_job False False) (example_profile Infinity plain_step)"
       and c = 0 and pre = "[StateThing (State 1 7)]" and x = "''junk''" and post = "[]"
       and j = 0 and t' = 0 and ?js1.0 = "[]" and ?js2.0 = "[]"
       and ?m1.0 = "example_manager [0] [(0, 0)] [StateThing (State 1 7), OtherThing ''junk'']
           (example_job False False) (example_profile Infinity plain_step)"
       and acc = "(0, example_manager [0] [(0, 0)] [StateThing (State 1 7), OtherThing ''junk'']
           (example_job False False) (example_profile Infinity plain_step))"]
  by (simp add: example_defs)



subsection \<open>One pass over a job\<close>

text \<open>The five ways the body of the second loop can end without an exception.\<close>

lemma sync_job_cases [consumes 1, case_names create drop replace keep finish]:
  assumes "sync_job j (t, m) = Inr (t', m')"
  obtains
    (create) "map_of (crunchers m) j = None" and "\<not> is_done m j"
      and "m' = conditional_create_cruncher m j"
  | (drop) "map_of (crunchers m) j = None" and "is_done m j" and "j \<in> set (jobs m)"
      and "m' = m\<lparr>jobs := remove1 j (jobs m)\<rparr>"
  | (replace) c n leaf m1 m2 mr where "map_of (crunchers m) j = Some c"
      and "add_work_to_tree m c j False = Inr ((n, leaf), m1)"
      and "m2 = m1\<lparr>job_heap := (job_heap m1)(j := (job_heap m1 j)\<lparr>node := leaf\<rparr>)\<rparr>"
      and "\<not> is_done m2 j" and "mr = m2 \<or> mr = retire m2 c"
      and "m' = conditional_create_cruncher mr j"
  | (keep) c n leaf m1 m2 m3 where "map_of (crunchers m) j = Some c"
      and "add_work_to_tree m c j False = Inr ((n, leaf), m1)"
      and "m2 = m1\<lparr>job_heap := (job_heap m1)(j := (job_heap m1 j)\<lparr>node := leaf\<rparr>)\<rparr>"
      and "\<not> is_done m2 j"
      and "m3 = m2 \<or> m3 = snd (check_in m2 (crunching_profile (job_heap m2 j)))"
      and "m' = m3 \<or> m' = update_crunching_profile m3 c (crunching_profile (job_heap m2 j))"
  | (finish) c n leaf m1 m2 mr where "map_of (crunchers m) j = Some c"
      and "add_work_to_tree m c j False = Inr ((n, leaf), m1)"
      and "m2 = m1\<lparr>job_heap := (job_heap m1)(j := (job_heap m1 j)\<lparr>node := leaf\<rparr>)\<rparr>"
      and "is_done m2 j" and "j \<in> set (jobs m2)"
      and "mr = m2\<lparr>jobs := remove1 j (jobs m2)\<rparr> \<or> mr = retire (m2\<lparr>jobs := remove1 j (jobs m2)\<rparr>) c"
      and "m' = mr\<lparr>crunchers := AList.delete j (crunchers mr)\<rparr>"
proof (cases "map_of (crunchers m) j")
  case None
  show ?thesis
  proof (cases "is_done m j")
    case True
    with None assms have "j \<in> set (jobs m)" and "m' = m\<lparr>jobs := remove1 j (jobs m)\<rparr>"
      by (auto simp: sync_job_def jobs_remove_def split: if_splits)
    with None True show ?thesis by (rule drop)
  next
    case False
    with None assms have "m' = conditional_create_cruncher m j"
      by (auto simp: sync_job_def)
    with None False show ?thesis by (rule create)
  qed
next
  case (Some c)
  with assms obtain n leaf m1 where
    aw: "add_work_to_tree m c j False = Inr ((n, leaf), m1)"
    by (auto simp: sync_job_def split: sum.splits)
  define m2 where "m2 = m1\<lparr>job_heap := (job_heap m1)(j := (job_heap m1 j)\<lparr>node := leaf\<rparr>)\<rparr>"
  note run = assms Some aw
  note sj = sync_job_def Let_def m2_def[symmetric] jobs_remove_def
  show ?thesis
  proof (cases "is_done m2 j")
    case True
    with run have in_jobs: "j \<in> set (jobs m2)"
      by (auto simp: sj split: if_splits)
    define mr where "mr = (if is_alive (m2\<lparr>jobs := remove1 j (jobs m2)\<rparr>) c
       then retire (m2\<lparr>jobs := remove1 j (jobs m2)\<rparr>) c else m2\<lparr>jobs := remove1 j (jobs m2)\<rparr>)"
    from run True in_jobs have m': "m' = mr\<lparr>crunchers := AList.delete j (crunchers mr)\<rparr>"
      by (simp add: sj mr_def)
    have mr: "mr = m2\<lparr>jobs := remove1 j (jobs m2)\<rparr>
       \<or> mr = retire (m2\<lparr>jobs := remove1 j (jobs m2)\<rparr>) c"
      by (simp add: mr_def)
    show ?thesis by (rule finish[OF Some aw m2_def True in_jobs mr m'])
  next
    case False
    let ?cp = "crunching_profile (job_heap m2 j)"
    show ?thesis
    proof (cases "is_alive m2 c \<and> cruncher_class (cruncher_heap m2 c) = cruncher_type m2")
      case ok: True
      with run False obtain recorded where
        rec: "step_profiles m2 c = Some recorded"
        by (auto simp: sj split: option.splits)
      show ?thesis
      proof (cases "StepProfile_ne (step_profile (profile_heap m2 ?cp)) (ProfileObj recorded)")
        case True
        with run False ok rec
        have m': "m' = conditional_create_cruncher (retire m2 c) j"
          by (simp add: sj)
        have "retire m2 c = m2 \<or> retire m2 c = retire m2 c" by simp
        from replace[OF Some aw m2_def False this m'] show ?thesis .
      next
        case same: False
        obtain changed m3 where ci: "check_in m2 ?cp = (changed, m3)" by force
        then have m3: "m3 = m2 \<or> m3 = snd (check_in m2 ?cp)" by simp
        from run False ok rec same ci
        have m': "m' = m3 \<or> m' = update_crunching_profile m3 c ?cp"
          by (auto simp: sj split: if_splits)
        show ?thesis by (rule keep[OF Some aw m2_def False m3 m'])
      qed
    next
      case bad: False
      with run False
      have m': "m' = conditional_create_cruncher (retire m2 c) j"
        by (auto simp: sj)
      have "retire m2 c = m2 \<or> retire m2 c = retire m2 c" by simp
      from replace[OF Some aw m2_def False this m'] show ?thesis .
    qed
  qed
qed

lemma add_work_to_tree_idle:
  assumes "add_work_to_tree m c j r = Inr ((n, leaf), m1)"
    and "work_queue (cruncher_heap m c) = []"
  shows "leaf = node (job_heap m j)" and "n = 0" and "job_heap m1 = job_heap m"
proof -
  from add_work_to_tree_run[OF assms(1)] assms(2)
  show "leaf = node (job_heap m j)" and "n = 0" by auto
  from add_work_to_tree_frame(8)[OF assms(1)] assms(2)
  show "job_heap m1 = job_heap m" by simp
qed

lemmas took = add_work_to_tree_frame(1-8)

lemma sync_job_frame:
  assumes "sync_job j (t, m) = Inr (t', m')"
  shows "profile_heap m' = profile_heap m
    \<and> (\<forall>k. k \<noteq> j \<longrightarrow> job_heap m' k = job_heap m k)
    \<and> (\<forall>k. k \<noteq> j \<longrightarrow> map_of (crunchers m') k = map_of (crunchers m) k)
    \<and> (\<forall>c. work_queue (cruncher_heap m c) = [] \<longrightarrow> work_queue (cruncher_heap m' c) = [])
    \<and> (jobs m' = jobs m \<or> jobs m' = remove1 j (jobs m))"
  using assms
proof (cases rule: sync_job_cases)
  case create
  then show ?thesis by (simp add: conditional_create_cruncher_eq update_conv')
next
  case drop
  then show ?thesis by simp
next
  case (replace c n leaf m1 m2 mr)
  note tk = took[OF replace(2)]
  from replace(5) show ?thesis
  proof
    assume "mr = m2"
    with replace tk show ?thesis by (simp add: conditional_create_cruncher_eq update_conv')
  next
    assume "mr = retire m2 c"
    with replace tk show ?thesis
      by (simp add: conditional_create_cruncher_eq update_conv' retire_def)
  qed
next
  case (keep c n leaf m1 m2 m3)
  note tk = took[OF keep(2)]
  from keep(5,6) keep(3) tk show ?thesis
    by (auto simp: check_in_tracker update_crunching_profile_def)
next
  case (finish c n leaf m1 m2 mr)
  note tk = took[OF finish(2)]
  from finish(6) finish(3,7) tk show ?thesis
    by (auto simp: retire_def delete_conv')
qed

lemma sync_job_settles:
  assumes "sync_job j (t, m) = Inr (t', m')"
  shows "(jobs m' = jobs m \<and> settled m' j) \<or> (jobs m' = remove1 j (jobs m) \<and> \<not> settled m j)"
  using assms
proof (cases rule: sync_job_cases)
  case create
  then show ?thesis
    by (simp add: settled_def is_done_def conditional_create_cruncher_eq update_conv')
next
  case drop
  then show ?thesis by (simp add: settled_def)
next
  case (replace c n leaf m1 m2 mr)
  note tk = took[OF replace(2)]
  from replace(5) show ?thesis
  proof
    assume "mr = m2"
    with replace tk show ?thesis
      by (simp add: settled_def is_done_def conditional_create_cruncher_eq update_conv')
  next
    assume "mr = retire m2 c"
    with replace tk show ?thesis
      by (simp add: settled_def is_done_def conditional_create_cruncher_eq update_conv' retire_def)
  qed
next
  case (keep c n leaf m1 m2 m3)
  note tk = took[OF keep(2)]
  from keep(5,6) keep(1,3,4) tk show ?thesis
    by (auto simp: settled_def is_done_def check_in_tracker update_crunching_profile_def)
next
  case (finish c n leaf m1 m2 mr)
  note tk = took[OF finish(2)]
  have "\<not> settled m j"
  proof
    assume "settled m j"
    with finish(1) have q: "work_queue (cruncher_heap m c) = []" and nd: "\<not> is_done m j"
      by (auto simp: settled_def)
    from add_work_to_tree_idle[OF finish(2) q] finish(3) tk(3)
    have "job_heap m2 = job_heap m" and "profile_heap m2 = profile_heap m" by auto
    then have "is_done m2 j = is_done m j" by (simp add: is_done_def)
    with nd finish(4) show False by simp
  qed
  moreover from finish(6) finish(3,7) tk have "jobs m' = remove1 j (jobs m)"
    by (auto simp: retire_def)
  ultimately show ?thesis by simp
qed

lemma sync_job_settled_other:
  assumes "sync_job j (t, m) = Inr (t', m')" and "k \<noteq> j" and "settled m k"
  shows "settled m' k"
  using sync_job_frame[OF assms(1)] assms(2,3)
  by (simp add: settled_def is_done_def)

lemma add_work_to_tree_step_profiles:
  assumes "add_work_to_tree m c j r = Inr ((n, leaf), m1)"
  shows "dom (step_profiles m) \<subseteq> dom (step_profiles m1)"
proof
  fix c' assume "c' \<in> dom (step_profiles m)"
  with add_work_to_tree_frame(11,12)[OF assms] show "c' \<in> dom (step_profiles m1)"
    by (cases "c' = c") auto
qed

lemma ran_update_subset: "ran (f(k \<mapsto> v)) \<subseteq> insert v (ran f)"
  by (auto simp: ran_def)

lemma ran_delete_subset: "ran (f(k := None)) \<subseteq> ran f"
  by (auto simp: ran_def)

lemma conditional_create_cruncher_step_profiles:
  "dom (step_profiles m) \<subseteq> dom (step_profiles (conditional_create_cruncher m j))
   \<and> (ran (map_of (crunchers m)) \<subseteq> dom (step_profiles m) \<longrightarrow>
        ran (map_of (crunchers (conditional_create_cruncher m j)))
          \<subseteq> dom (step_profiles (conditional_create_cruncher m j)))"
  using ran_update_subset[of "map_of (crunchers m)" j "next_cruncher m"]
  by (auto simp: conditional_create_cruncher_eq update_conv')

lemma sync_job_step_profiles:
  assumes "sync_job j (t, m) = Inr (t', m')"
  shows "dom (step_profiles m) \<subseteq> dom (step_profiles m')
    \<and> (ran (map_of (crunchers m)) \<subseteq> dom (step_profiles m) \<longrightarrow>
         ran (map_of (crunchers m')) \<subseteq> dom (step_profiles m'))"
  using assms
proof (cases rule: sync_job_cases)
  case create
  then show ?thesis using conditional_create_cruncher_step_profiles by simp
next
  case drop
  then show ?thesis by simp
next
  case (replace c n leaf m1 m2 mr)
  note tk = took[OF replace(2)] and sp = add_work_to_tree_step_profiles[OF replace(2)]
  from replace(3,5) tk have "step_profiles mr = step_profiles m1" and "crunchers mr = crunchers m"
    by (auto simp: retire_def)
  with conditional_create_cruncher_step_profiles[of mr j] replace(6) sp
  show ?thesis by auto
next
  case (keep c n leaf m1 m2 m3)
  note tk = took[OF keep(2)] and sp = add_work_to_tree_step_profiles[OF keep(2)]
  from keep(3,5,6) tk have "step_profiles m' = step_profiles m1" and "crunchers m' = crunchers m"
    by (auto simp: check_in_tracker update_crunching_profile_def)
  with sp show ?thesis by (simp add: subset_trans)
next
  case (finish c n leaf m1 m2 mr)
  note tk = took[OF finish(2)] and sp = add_work_to_tree_step_profiles[OF finish(2)]
  from finish(3,6,7) tk have "step_profiles m' = step_profiles m1"
    and "crunchers m' = AList.delete j (crunchers m)"
    by (auto simp: retire_def)
  with sp ran_delete_subset[of "map_of (crunchers m)" j]
  have "dom (step_profiles m) \<subseteq> dom (step_profiles m')"
    and "ran (map_of (crunchers m')) \<subseteq> ran (map_of (crunchers m))"
    by (simp_all add: delete_conv')
  then show ?thesis by blast
qed

lemma sync_job_waits:
  assumes "sync_job j (t, m) = Inr (t', m')"
    and "map_of (crunchers m) j = None" and "still_in_editing (node (job_heap m j))"
  shows "crunchers m' = crunchers m \<and> job_heap m' = job_heap m \<and> calls m' = calls m
    \<and> cruncher_heap m' = cruncher_heap m \<and> next_cruncher m' = next_cruncher m
    \<and> step_profiles m' = step_profiles m"
  using assms
  by (cases rule: sync_job_cases) (simp_all add: conditional_create_cruncher_eq)


subsection \<open>The two loops\<close>

lemma reap_frame:
  "reap cs (t, m) = Inr (t', m') \<Longrightarrow>
     jobs m' = jobs m
     \<and> dom (step_profiles m) \<subseteq> dom (step_profiles m')
     \<and> ran (map_of (crunchers m')) \<subseteq> ran (map_of (crunchers m))
     \<and> (\<forall>j. map_of (crunchers m) j = None \<longrightarrow> map_of (crunchers m') j = None)
     \<and> (\<forall>j. node (job_heap m' j) = node (job_heap m j))"
proof (induction cs "(t, m)" arbitrary: t m rule: reap.induct)
  case 1
  then show ?case by simp
next
  case (2 j c rest total_added m)
  show ?case
  proof (cases "j \<in> set (jobs m)")
    case True
    with 2 show ?thesis by simp
  next
    case False
    with "2.prems" obtain n leaf m1 where
      aw: "add_work_to_tree m c j True = Inr ((n, leaf), m1)"
      and rest: "reap rest (total_added + n, m1\<lparr>crunchers := AList.delete j (crunchers m1)\<rparr>)
                  = Inr (t', m')"
      by (auto split: sum.splits)
    note tk = took[OF aw] and sp = add_work_to_tree_step_profiles[OF aw]
    let ?m2 = "m1\<lparr>crunchers := AList.delete j (crunchers m1)\<rparr>"
    from "2.hyps"(1)[OF False aw refl refl rest]
    have ih: "jobs m' = jobs ?m2"
      "dom (step_profiles ?m2) \<subseteq> dom (step_profiles m')"
      "ran (map_of (crunchers m')) \<subseteq> ran (map_of (crunchers ?m2))"
      "\<forall>k. map_of (crunchers ?m2) k = None \<longrightarrow> map_of (crunchers m') k = None"
      "\<forall>k. node (job_heap m' k) = node (job_heap ?m2 k)"
      by auto
    have "jobs m' = jobs m" using ih(1) tk by simp
    moreover have "dom (step_profiles m) \<subseteq> dom (step_profiles m')"
      using ih(2) sp by auto
    moreover have "ran (map_of (crunchers m')) \<subseteq> ran (map_of (crunchers m))"
      using ih(3) tk ran_delete_subset[of "map_of (crunchers m)" j]
      by (simp add: delete_conv')
    moreover have "\<forall>k. map_of (crunchers m) k = None \<longrightarrow> map_of (crunchers m') k = None"
      using ih(4) tk by (simp add: delete_conv')
    moreover have "\<forall>k. node (job_heap m' k) = node (job_heap m k)"
      using ih(5) tk by simp
    ultimately show ?thesis by simp
  qed
qed

lemma sync_jobs_settle:
  "sync_jobs js (t, m) = Inr (t', m') \<Longrightarrow>
   (\<forall>k. count_list (jobs m) k \<le> count_list js k \<or> settled m k) \<Longrightarrow>
   (\<forall>k \<in> set (jobs m'). settled m' k)"
proof (induction js arbitrary: t m)
  case Nil
  then show ?case by (auto simp: count_list_0_iff)
next
  case (Cons j js)
  from Cons.prems(1) obtain t1 m1 where
    step: "sync_job j (t, m) = Inr (t1, m1)" and rest: "sync_jobs js (t1, m1) = Inr (t', m')"
    by (auto split: sum.splits)
  have "\<forall>k. count_list (jobs m1) k \<le> count_list js k \<or> settled m1 k"
  proof
    fix k
    show "count_list (jobs m1) k \<le> count_list js k \<or> settled m1 k"
    proof (cases "k = j")
      case True
      from sync_job_settles[OF step] Cons.prems(2)[rule_format, of j] True
      show ?thesis by auto
    next
      case False
      from sync_job_frame[OF step]
      have "jobs m1 = jobs m \<or> jobs m1 = remove1 j (jobs m)" by simp
      with False have "count_list (jobs m1) k = count_list (jobs m) k"
        by auto
      with Cons.prems(2)[rule_format, of k] False sync_job_settled_other[OF step False]
      show ?thesis by auto
    qed
  qed
  from Cons.IH[OF rest this] show ?case .
qed

lemma sync_jobs_step_profiles:
  "sync_jobs js (t, m) = Inr (t', m') \<Longrightarrow>
     dom (step_profiles m) \<subseteq> dom (step_profiles m')
     \<and> (ran (map_of (crunchers m)) \<subseteq> dom (step_profiles m) \<longrightarrow>
          ran (map_of (crunchers m')) \<subseteq> dom (step_profiles m'))"
proof (induction js arbitrary: t m)
  case Nil
  then show ?case by simp
next
  case (Cons j js)
  from Cons.prems obtain t1 m1 where
    step: "sync_job j (t, m) = Inr (t1, m1)" and rest: "sync_jobs js (t1, m1) = Inr (t', m')"
    by (auto split: sum.splits)
  from sync_job_step_profiles[OF step] Cons.IH[OF rest] show ?case by blast
qed

lemma sync_jobs_waits:
  "sync_jobs js (t, m) = Inr (t', m') \<Longrightarrow>
   map_of (crunchers m) j = None \<Longrightarrow> still_in_editing (node (job_heap m j)) \<Longrightarrow>
   map_of (crunchers m') j = None \<and> node (job_heap m' j) = node (job_heap m j)"
proof (induction js arbitrary: t m)
  case Nil
  then show ?case by simp
next
  case (Cons k js)
  from Cons.prems(1) obtain t1 m1 where
    step: "sync_job k (t, m) = Inr (t1, m1)" and rest: "sync_jobs js (t1, m1) = Inr (t', m')"
    by (auto split: sum.splits)
  have keep: "map_of (crunchers m1) j = None \<and> job_heap m1 j = job_heap m j"
  proof (cases "k = j")
    case True
    from sync_job_waits[OF step[unfolded True] Cons.prems(2,3)]
    have "crunchers m1 = crunchers m" and "job_heap m1 = job_heap m" by simp_all
    with Cons.prems(2) show ?thesis by simp
  next
    case False
    with sync_job_frame[OF step] Cons.prems(2) show ?thesis by simp
  qed
  with Cons.prems(3) have "still_in_editing (node (job_heap m1 j))" by simp
  from Cons.IH[OF rest _ this] keep show ?case by simp
qed


text \<open>
  C5. After a call of \<open>sync_crunchers\<close> that returns, no job left in \<open>jobs\<close> is done
  (\<open>is_done\<close>: its \<open>resulted_in_end\<close> is set or its node's clock has reached the clock
  target). The list may hold a job several times.
\<close>

theorem done_jobs_leave:
  assumes "sync_crunchers m = Inr (n, m')"
  shows "\<forall>j \<in> set (jobs m'). \<not> is_done m' j"
proof -
  from assms obtain t1 m1 where
    r: "reap (crunchers m) (0, m) = Inr (t1, m1)"
    and s: "sync_jobs (jobs m1) (t1, m1) = Inr (n, m')"
    by (auto simp: sync_crunchers_def split: sum.splits)
  have "\<forall>k. count_list (jobs m1) k \<le> count_list (jobs m1) k \<or> settled m1 k" by simp
  from sync_jobs_settle[OF s this] show ?thesis by (simp add: settled_def)
qed

theorem done_jobs_leave_witness:
  "sync_crunchers
      (example_manager [0, 1] [(0, 0)] [StateThing (State 1 7), EndMarker]
         (example_job False False) (example_profile Infinity plain_step))
     = Inr (fst (projr (sync_crunchers
              (example_manager [0, 1] [(0, 0)] [StateThing (State 1 7), EndMarker]
                 (example_job False False) (example_profile Infinity plain_step)))),
            snd (projr (sync_crunchers
              (example_manager [0, 1] [(0, 0)] [StateThing (State 1 7), EndMarker]
                 (example_job False False) (example_profile Infinity plain_step)))))
   \<and> jobs (snd (projr (sync_crunchers
      (example_manager [0, 1] [(0, 0)] [StateThing (State 1 7), EndMarker]
         (example_job False False) (example_profile Infinity plain_step))))) = [1]
   \<and> \<not> is_done (snd (projr (sync_crunchers
      (example_manager [0, 1] [(0, 0)] [StateThing (State 1 7), EndMarker]
         (example_job False False) (example_profile Infinity plain_step))))) 1"
  using done_jobs_leave
    [where m = "example_manager [0, 1] [(0, 0)] [StateThing (State 1 7), EndMarker]
                  (example_job False False) (example_profile Infinity plain_step)"
       and n = "fst (projr (sync_crunchers
              (example_manager [0, 1] [(0, 0)] [StateThing (State 1 7), EndMarker]
                 (example_job False False) (example_profile Infinity plain_step))))"
       and m' = "snd (projr (sync_crunchers
              (example_manager [0, 1] [(0, 0)] [StateThing (State 1 7), EndMarker]
                 (example_job False False) (example_profile Infinity plain_step))))"]
  by (simp add: example_defs)


text \<open>
  C3. The claim says that after a call of \<open>sync_crunchers\<close> every key of
  \<open>step_profiles\<close> is a value of \<open>crunchers\<close>, the entry of a cruncher being removed
  when the cruncher is retired and forgotten. The code never removes an entry of
  \<open>step_profiles\<close>: after the cruncher of a cancelled job is reaped, its entry is still
  there.
\<close>

theorem step_profiles_removed_counterexample:
  "dom (step_profiles
      (example_manager [] [(0, 0)] [] (example_job False False)
         (example_profile Infinity plain_step)))
     \<subseteq> ran (map_of (crunchers
      (example_manager [] [(0, 0)] [] (example_job False False)
         (example_profile Infinity plain_step))))
   \<and> \<not> isl (sync_crunchers
      (example_manager [] [(0, 0)] [] (example_job False False)
         (example_profile Infinity plain_step)))
   \<and> calls (snd (projr (sync_crunchers
      (example_manager [] [(0, 0)] [] (example_job False False)
         (example_profile Infinity plain_step))))) = [Retire 0]
   \<and> 0 \<in> dom (step_profiles (snd (projr (sync_crunchers
      (example_manager [] [(0, 0)] [] (example_job False False)
         (example_profile Infinity plain_step))))))
   \<and> 0 \<notin> ran (map_of (crunchers (snd (projr (sync_crunchers
      (example_manager [] [(0, 0)] [] (example_job False False)
         (example_profile Infinity plain_step)))))))"
  by (simp add: example_defs)


text \<open>
  C3, amended. A call of \<open>sync_crunchers\<close> that returns keeps every key of
  \<open>step_profiles\<close>, and if every value of \<open>crunchers\<close> was a key of \<open>step_profiles\<close>
  before the call, this holds after it.
\<close>

theorem step_profiles_kept:
  assumes "sync_crunchers m = Inr (n, m')"
  shows "dom (step_profiles m) \<subseteq> dom (step_profiles m')
    \<and> (ran (map_of (crunchers m)) \<subseteq> dom (step_profiles m) \<longrightarrow>
         ran (map_of (crunchers m')) \<subseteq> dom (step_profiles m'))"
proof -
  from assms obtain t1 m1 where
    r: "reap (crunchers m) (0, m) = Inr (t1, m1)"
    and s: "sync_jobs (jobs m1) (t1, m1) = Inr (n, m')"
    by (auto simp: sync_crunchers_def split: sum.splits)
  from reap_frame[OF r] have "dom (step_profiles m) \<subseteq> dom (step_profiles m1)"
    and "ran (map_of (crunchers m1)) \<subseteq> ran (map_of (crunchers m))" by simp_all
  with sync_jobs_step_profiles[OF s] show ?thesis by blast
qed

theorem step_profiles_kept_witness:
  "sync_crunchers
      (example_manager [] [(0, 0)] [] (example_job False False)
         (example_profile Infinity plain_step))
     = Inr (fst (projr (sync_crunchers
              (example_manager [] [(0, 0)] [] (example_job False False)
                 (example_profile Infinity plain_step)))),
            snd (projr (sync_crunchers
              (example_manager [] [(0, 0)] [] (example_job False False)
                 (example_profile Infinity plain_step)))))
   \<and> ran (map_of (crunchers
      (example_manager [] [(0, 0)] [] (example_job False False)
         (example_profile Infinity plain_step))))
     \<subseteq> dom (step_profiles
      (example_manager [] [(0, 0)] [] (example_job False False)
         (example_profile Infinity plain_step)))
   \<and> step_profiles (snd (projr (sync_crunchers
      (example_manager [] [(0, 0)] [] (example_job False False)
         (example_profile Infinity plain_step))))) 0 = Some plain_step"
  using step_profiles_kept
    [where m = "example_manager [] [(0, 0)] [] (example_job False False)
                  (example_profile Infinity plain_step)"
       and n = "fst (projr (sync_crunchers
              (example_manager [] [(0, 0)] [] (example_job False False)
                 (example_profile Infinity plain_step))))"
       and m' = "snd (projr (sync_crunchers
              (example_manager [] [(0, 0)] [] (example_job False False)
                 (example_profile Infinity plain_step))))"]
  by (simp add: example_defs)


text \<open>
  C6. \<open>__conditional_create_cruncher\<close> changes nothing when the job's node is in editing;
  otherwise it makes a cruncher of the selected class, starts it, records it for the job,
  checks the crunching profile into the change tracker and records the profile's step
  profile for the cruncher. A job without a cruncher whose node is in editing has no
  cruncher after a call of \<open>sync_crunchers\<close> that returns.
\<close>

theorem no_cruncher_while_editing:
  "(still_in_editing (node (job_heap m j)) \<longrightarrow> conditional_create_cruncher m j = m)
   \<and> (\<not> still_in_editing (node (job_heap m j)) \<longrightarrow>
        map_of (crunchers (conditional_create_cruncher m j)) j = Some (next_cruncher m)
        \<and> calls (conditional_create_cruncher m j) = calls m @ [Start (next_cruncher m)]
        \<and> cruncher_class (cruncher_heap (conditional_create_cruncher m j) (next_cruncher m))
            = cruncher_type m
        \<and> crunching_profiles_change_tracker (conditional_create_cruncher m j)
            (crunching_profile (job_heap m j))
            = Some (profile_heap m (crunching_profile (job_heap m j)))
        \<and> step_profiles (conditional_create_cruncher m j) (next_cruncher m)
            = Some (step_profile (profile_heap m (crunching_profile (job_heap m j)))))
   \<and> (map_of (crunchers m) j = None \<and> still_in_editing (node (job_heap m j))
        \<and> sync_crunchers m = Inr (n, m')
        \<longrightarrow> map_of (crunchers m') j = None)"
proof (intro conjI impI)
  assume h: "map_of (crunchers m) j = None \<and> still_in_editing (node (job_heap m j))
        \<and> sync_crunchers m = Inr (n, m')"
  then obtain t1 m1 where
    r: "reap (crunchers m) (0, m) = Inr (t1, m1)"
    and s: "sync_jobs (jobs m1) (t1, m1) = Inr (n, m')"
    by (auto simp: sync_crunchers_def split: sum.splits)
  from reap_frame[OF r] h have "map_of (crunchers m1) j = None"
    and "still_in_editing (node (job_heap m1 j))" by simp_all
  from sync_jobs_waits[OF s this] show "map_of (crunchers m') j = None" by simp
qed (simp_all add: conditional_create_cruncher_eq update_conv')

theorem no_cruncher_while_editing_witness:
  "still_in_editing (node (job_heap
      (example_manager [0] [] [] (example_job True False) (example_profile Infinity plain_step)) 0))
   \<and> map_of (crunchers
      (example_manager [0] [] [] (example_job True False) (example_profile Infinity plain_step))) 0
     = None
   \<and> \<not> isl (sync_crunchers
      (example_manager [0] [] [] (example_job True False) (example_profile Infinity plain_step)))
   \<and> crunchers (snd (projr (sync_crunchers
      (example_manager [0] [] [] (example_job True False) (example_profile Infinity plain_step)))))
     = []
   \<and> \<not> still_in_editing (node (job_heap
      (example_manager [0] [] [] (example_job False False) (example_profile Infinity heavy_step)) 0))
   \<and> crunchers (conditional_create_cruncher
      (example_manager [0] [] [] (example_job False False) (example_profile Infinity heavy_step)) 0)
     = [(0, 1)]
   \<and> step_profiles (conditional_create_cruncher
      (example_manager [0] [] [] (example_job False False) (example_profile Infinity heavy_step)) 0) 1
     = Some heavy_step"
  using no_cruncher_while_editing
    [where m = "example_manager [0] [] [] (example_job True False)
                  (example_profile Infinity plain_step)"
       and j = 0
       and n = "fst (projr (sync_crunchers (example_manager [0] [] [] (example_job True False)
                  (example_profile Infinity plain_step))))"
       and m' = "snd (projr (sync_crunchers (example_manager [0] [] [] (example_job True False)
                  (example_profile Infinity plain_step))))"]
    no_cruncher_while_editing
    [where m = "example_manager [0] [] [] (example_job False False)
                  (example_profile Infinity heavy_step)"
       and j = 0 and n = 0
       and m' = "example_manager [0] [] [] (example_job False False)
                  (example_profile Infinity heavy_step)"]
  by (simp add: example_defs)


text \<open>
  C2. The claim says that for a job whose cruncher is alive and of the selected class and
  which is not done after its work was taken, a step profile that differs from the recorded
  one leads to one retirement and one creation. The creation is
  \<open>__conditional_create_cruncher\<close>, which does nothing while the job's node is in
  editing: then the old cruncher is retired, no cruncher is made, and the job keeps the
  retired one.
\<close>

theorem step_profile_change_counterexample:
  "map_of (crunchers
      (example_manager [0] [(0, 0)] [] (example_job True False)
         (example_profile Infinity heavy_step))) 0 = Some 0
   \<and> is_alive
      (example_manager [0] [(0, 0)] [] (example_job True False)
         (example_profile Infinity heavy_step)) 0
   \<and> cruncher_class (cruncher_heap
      (example_manager [0] [(0, 0)] [] (example_job True False)
         (example_profile Infinity heavy_step)) 0)
     = cruncher_type
      (example_manager [0] [(0, 0)] [] (example_job True False)
         (example_profile Infinity heavy_step))
   \<and> step_profiles
      (example_manager [0] [(0, 0)] [] (example_job True False)
         (example_profile Infinity heavy_step)) 0 = Some plain_step
   \<and> step_profile (profile_heap
      (example_manager [0] [(0, 0)] [] (example_job True False)
         (example_profile Infinity heavy_step)) 0) = heavy_step
   \<and> StepProfile_ne heavy_step (ProfileObj plain_step)
   \<and> \<not> isl (sync_crunchers
      (example_manager [0] [(0, 0)] [] (example_job True False)
         (example_profile Infinity heavy_step)))
   \<and> \<not> is_done (snd (projr (sync_crunchers
      (example_manager [0] [(0, 0)] [] (example_job True False)
         (example_profile Infinity heavy_step))))) 0
   \<and> calls (snd (projr (sync_crunchers
      (example_manager [0] [(0, 0)] [] (example_job True False)
         (example_profile Infinity heavy_step))))) = [Retire 0]
   \<and> crunchers (snd (projr (sync_crunchers
      (example_manager [0] [(0, 0)] [] (example_job True False)
         (example_profile Infinity heavy_step))))) = [(0, 0)]
   \<and> next_cruncher (snd (projr (sync_crunchers
      (example_manager [0] [(0, 0)] [] (example_job True False)
         (example_profile Infinity heavy_step))))) = 1"
  by (simp add: example_defs)


text \<open>
  C2, amended. In the body of the second loop, for a job whose cruncher is alive and of the
  selected class, which is not done after its work was taken and whose node is then not in
  editing: if the job's step profile differs from the one recorded for the cruncher, the
  calls made are exactly one \<open>retire\<close> of the old cruncher and one \<open>start\<close> of a new
  one, which becomes the job's cruncher and is recorded with the job's step profile;
  exactly one cruncher is made, \<open>update_crunching_profile\<close> is not called, and what the
  change tracker holds has no influence.
\<close>

theorem step_profile_change_replaces:
  assumes "map_of (crunchers m) j = Some c"
    and "add_work_to_tree m c j False = Inr ((n, leaf), m1)"
    and "m2 = m1\<lparr>job_heap := (job_heap m1)(j := (job_heap m1 j)\<lparr>node := leaf\<rparr>)\<rparr>"
    and "\<not> is_done m2 j"
    and "is_alive m2 c"
    and "cruncher_class (cruncher_heap m2 c) = cruncher_type m2"
    and "step_profiles m2 c = Some recorded"
    and "StepProfile_ne (step_profile (profile_heap m2 (crunching_profile (job_heap m2 j))))
           (ProfileObj recorded)"
    and "\<not> still_in_editing leaf"
  shows "\<exists>m'. sync_job j (t, m) = Inr (t + n, m')
     \<and> calls m' = calls m @ [Retire c, Start (next_cruncher m)]
     \<and> map_of (crunchers m') j = Some (next_cruncher m)
     \<and> next_cruncher m' = Suc (next_cruncher m)
     \<and> step_profiles m' (next_cruncher m)
         = Some (step_profile (profile_heap m (crunching_profile (job_heap m j))))"
proof -
  note tk = took[OF assms(2)]
  from assms(3,4) have "\<not> resulted_in_end (job_heap m1 j)" by (simp add: is_done_def)
  with add_work_to_tree_frame(9)[OF assms(2)] have calls: "calls m1 = calls m" by simp
  have run: "sync_job j (t, m) = Inr (t + n, conditional_create_cruncher (retire m2 c) j)"
    using assms(1,2,4-8) by (simp add: sync_job_def Let_def assms(3)[symmetric])
  have "node (job_heap (retire m2 c) j) = leaf" using assms(3) by (simp add: retire_def)
  with assms(9) have ed: "\<not> still_in_editing (node (job_heap (retire m2 c) j))" by simp
  let ?m' = "conditional_create_cruncher (retire m2 c) j"
  have "calls ?m' = calls m @ [Retire c, Start (next_cruncher m)]"
    using ed assms(3) tk calls by (simp add: conditional_create_cruncher_eq retire_def)
  moreover have "map_of (crunchers ?m') j = Some (next_cruncher m)"
    using ed assms(3) tk by (simp add: conditional_create_cruncher_eq retire_def update_conv')
  moreover have "next_cruncher ?m' = Suc (next_cruncher m)"
    using ed assms(3) tk by (simp add: conditional_create_cruncher_eq retire_def)
  moreover have "step_profiles ?m' (next_cruncher m)
         = Some (step_profile (profile_heap m (crunching_profile (job_heap m j))))"
    using ed assms(3) tk by (simp add: conditional_create_cruncher_eq retire_def)
  ultimately show ?thesis using run by blast
qed

theorem step_profile_change_replaces_witness:
  "map_of (crunchers
      (example_manager [0] [(0, 0)] [] (example_job False False)
         (example_profile Infinity heavy_step))) 0 = Some 0
   \<and> add_work_to_tree
      (example_manager [0] [(0, 0)] [] (example_job False False)
         (example_profile Infinity heavy_step)) 0 0 False
     = Inr ((0, root_node False),
        snd (projr (add_work_to_tree
          (example_manager [0] [(0, 0)] [] (example_job False False)
             (example_profile Infinity heavy_step)) 0 0 False)))
   \<and> StepProfile_ne heavy_step (ProfileObj plain_step)
   \<and> \<not> still_in_editing (root_node False)
   \<and> calls (snd (projr (sync_job 0 (0,
        example_manager [0] [(0, 0)] [] (example_job False False)
          (example_profile Infinity heavy_step))))) = [Retire 0, Start 1]
   \<and> crunchers (snd (projr (sync_job 0 (0,
        example_manager [0] [(0, 0)] [] (example_job False False)
          (example_profile Infinity heavy_step))))) = [(0, 1)]
   \<and> step_profiles (snd (projr (sync_job 0 (0,
        example_manager [0] [(0, 0)] [] (example_job False False)
          (example_profile Infinity heavy_step))))) 1 = Some heavy_step"
  using step_profile_change_replaces
    [where m = "example_manager [0] [(0, 0)] [] (example_job False False)
                  (example_profile Infinity heavy_step)"
       and j = 0 and c = 0 and n = 0 and leaf = "root_node False" and t = 0
       and recorded = plain_step
       and ?m1.0 = "snd (projr (add_work_to_tree
          (example_manager [0] [(0, 0)] [] (example_job False False)
             (example_profile Infinity heavy_step)) 0 0 False))"
       and ?m2.0 = "(snd (projr (add_work_to_tree
          (example_manager [0] [(0, 0)] [] (example_job False False)
             (example_profile Infinity heavy_step)) 0 0 False)))
          \<lparr>job_heap := (job_heap (snd (projr (add_work_to_tree
             (example_manager [0] [(0, 0)] [] (example_job False False)
                (example_profile Infinity heavy_step)) 0 0 False))))
             (0 := (job_heap (snd (projr (add_work_to_tree
                (example_manager [0] [(0, 0)] [] (example_job False False)
                   (example_profile Infinity heavy_step)) 0 0 False))) 0)
                \<lparr>node := root_node False\<rparr>)\<rparr>"]
  by (simp add: example_defs)


end
